theory Spec2Isabelle
  imports Main "HOL-Library.Multiset"
begin


section \<open>Port manager\<close>

text \<open>
  The port manager keeps one global map \<open>usedPorts : map[int]bool\<close> behind a mutex.
  A Go map read of a missing key yields the zero value \<open>false\<close>; \<open>portUsed\<close> is that read.
  Ports are Go \<open>int\<close>s. The configuration loader aborts the program unless
  \<open>1024 \<le> MinPort \<le> MaxPort \<le> 65535\<close>, so no arithmetic on ports wraps and ports are
  modelled as mathematical integers.
\<close>

type_synonym port_map = "int \<rightharpoonup> bool"

definition portUsed :: "port_map \<Rightarrow> int \<Rightarrow> bool" where
  "portUsed usedPorts port = (case usedPorts port of None \<Rightarrow> False | Some b \<Rightarrow> b)"

datatype port_error = NoAvailablePort

text \<open>
  The loop of \<open>findAvailablePort\<close>: \<open>for port := minPort; port <= maxPort; port++\<close>,
  returning the first port whose map entry is not true; after the loop the Go code returns
  \<open>-1\<close> together with an error, which is the \<open>Inl\<close> result here.
\<close>

function findAvailablePort_from :: "port_map \<Rightarrow> int \<Rightarrow> int \<Rightarrow> port_error + int" where
  "findAvailablePort_from usedPorts port maxPort =
     (if port \<le> maxPort
      then (if \<not> portUsed usedPorts port then Inr port
            else findAvailablePort_from usedPorts (port + 1) maxPort)
      else Inl NoAvailablePort)"
  by pat_completeness auto
termination
  by (relation "measure (\<lambda>(usedPorts, port, maxPort). nat (maxPort + 1 - port))") auto

definition findAvailablePort :: "port_map \<Rightarrow> int \<Rightarrow> int \<Rightarrow> port_error + int" where
  "findAvailablePort usedPorts minPort maxPort = findAvailablePort_from usedPorts minPort maxPort"


text \<open>
  The settings \<open>LoadConfig\<close> reads from the environment (global variables of \<open>config.go\<close>).
\<close>

record config =
  WsURL :: string
  ServerExePath :: string
  AuthToken :: string
  MinPort :: int
  MaxPort :: int
  WorkshopPlaylistsInstallDir :: string
  WorkshopModsInstallDir :: string
  SteamCmdPath :: string
  GameAppID :: string

text \<open>
  \<open>assignPort\<close> marks a port as used: it refuses a port outside the configured range and a
  port already marked; the result is the boolean it returns and the map afterwards.
\<close>

definition assignPort :: "config \<Rightarrow> port_map \<Rightarrow> int \<Rightarrow> bool \<times> port_map" where
  "assignPort cfg usedPorts port =
     (if port < MinPort cfg \<or> port > MaxPort cfg then (False, usedPorts)
      else if portUsed usedPorts port then (False, usedPorts)
      else (True, usedPorts(port \<mapsto> True)))"

text \<open>\<open>releasePort\<close> deletes the entry of a used port in range, and does nothing otherwise.\<close>

definition releasePort :: "config \<Rightarrow> port_map \<Rightarrow> int \<Rightarrow> port_map" where
  "releasePort cfg usedPorts port =
     (if port < MinPort cfg \<or> port > MaxPort cfg then usedPorts
      else if \<not> portUsed usedPorts port then usedPorts
      else usedPorts(port := None))"

section \<open>Messages to the transport\<close>

text \<open>
  The payload structs of the WebSocket messages. The human-readable texts built with
  \<open>fmt.Sprintf\<close> are kept as one constructor per template with its arguments.
\<close>

datatype message_text =
    MsgPayloadDecodeFailed
  | MsgNoFreePort
  | MsgPortUpdateFailed
  | MsgExtractFailed
  | MsgPathResolveFailed
  | MsgAddPathsFailed
  | MsgSaveFailed
  | MsgPortConflict int
  | MsgSpawnFailed
  | MsgStartSucceeded string int nat
  | MsgPlayersPresent int
  | MsgNotRunning string
  | MsgStoppedConfigUnreadable string
  | MsgStoppedWithConfig string
  | MsgRestarted string int
  | MsgRestartFailed string
  | MsgDownloadStart
  | MsgDownloadError
  | MsgDownloadComplete nat nat nat

record StartServerPayload =
  Name :: string
  Config :: string

record SyncStatusPayload =
  RunningServers :: "string list"
  MaxServers :: int

record ResponsePayload =
  Success :: bool
  Message :: message_text
  Config :: string
  AssignedPort :: int
  FailedItemIDs :: "string list"
  NeedsConfirmation :: bool
  Players :: int

datatype ws_payload =
    SyncStatus SyncStatusPayload
  | Response ResponsePayload
  | StatusUpdate string message_text
  | ErrorResponse message_text
  | ServerCrashDetected string int string
  | ServerRestartResult string bool message_text

record WsMessage =
  Type :: string
  RequestID :: string
  Payload :: ws_payload

text \<open>
  \<open>sendSyncStatus\<close> computes the number of servers from the port range and hands one
  \<open>syncStatus\<close> message to \<open>sendMessage\<close>; the value here is that message. The list of
  running servers comes from the process table.
\<close>

definition sendSyncStatus :: "config \<Rightarrow> string list \<Rightarrow> WsMessage" where
  "sendSyncStatus cfg runningServers =
     (let maxServers = (if MaxPort cfg \<ge> MinPort cfg then MaxPort cfg - MinPort cfg else 0)
      in \<lparr>Type = ''syncStatus'', RequestID = [],
          Payload = SyncStatus \<lparr>RunningServers = runningServers, MaxServers = maxServers\<rparr>\<rparr>)"

text \<open>
  \<open>ConnectWebSocket\<close> up to the read loop: a failed dial returns an error (the token
  rejection when the HTTP status is 401), a successful one sends the \<open>syncStatus\<close> message
  first. The result is the error or the message sent on the new connection.
\<close>

datatype dial_result = DialFailed "nat option" | Connected

datatype connect_error = TokenRejected | ConnectionError

definition ConnectWebSocket :: "config \<Rightarrow> dial_result \<Rightarrow> string list \<Rightarrow> connect_error + WsMessage" where
  "ConnectWebSocket cfg dial runningServers =
     (case dial of
        DialFailed resp \<Rightarrow> (if resp = Some 401 then Inl TokenRejected else Inl ConnectionError)
      | Connected \<Rightarrow> Inr (sendSyncStatus cfg runningServers))"

text \<open>
  \<open>sendResponse\<close> fills \<open>NeedsConfirmation\<close> and \<open>Players\<close> only from its two optional
  arguments; the other fields keep Go's zero values.
\<close>

definition sendResponse :: "string \<Rightarrow> bool \<Rightarrow> message_text \<Rightarrow> string \<Rightarrow> (bool \<times> int) option \<Rightarrow> WsMessage" where
  "sendResponse requestID success message configData needsConfirm =
     \<lparr>Type = ''response'', RequestID = requestID,
      Payload = Response \<lparr>Success = success, Message = message, Config = configData,
        AssignedPort = 0, FailedItemIDs = [],
        NeedsConfirmation = (case needsConfirm of None \<Rightarrow> False | Some (b, n) \<Rightarrow> b),
        Players = (case needsConfirm of None \<Rightarrow> 0 | Some (b, n) \<Rightarrow> n)\<rparr>\<rparr>"

definition sendStartSuccessResponse :: "string \<Rightarrow> message_text \<Rightarrow> int \<Rightarrow> string list \<Rightarrow> WsMessage" where
  "sendStartSuccessResponse requestID message assignedPort failedItemIDs =
     \<lparr>Type = ''response'', RequestID = requestID,
      Payload = Response \<lparr>Success = True, Message = message, Config = [],
        AssignedPort = assignedPort, FailedItemIDs = failedItemIDs,
        NeedsConfirmation = False, Players = 0\<rparr>\<rparr>"

definition sendStatusUpdate :: "string \<Rightarrow> string \<Rightarrow> message_text \<Rightarrow> WsMessage" where
  "sendStatusUpdate requestID status message =
     \<lparr>Type = ''statusUpdate'', RequestID = requestID, Payload = StatusUpdate status message\<rparr>"

text \<open>\<open>sendErrorResponse\<close> sends nothing when the request id is empty.\<close>

definition sendErrorResponse :: "string \<Rightarrow> message_text \<Rightarrow> WsMessage list" where
  "sendErrorResponse requestID errorMessage =
     (if requestID = [] then []
      else [\<lparr>Type = ''error'', RequestID = requestID, Payload = ErrorResponse errorMessage\<rparr>])"

definition sendServerEvent :: "ws_payload \<Rightarrow> WsMessage" where
  "sendServerEvent payload = \<lparr>Type = ''serverEvent'', RequestID = [], Payload = payload\<rparr>"

section \<open>Process manager\<close>

text \<open>
  A process handle is identified by its pid. The process table \<open>runningProcs\<close> maps a
  configuration name to the handle and the port of its running server; together with the
  port map it is the state the handlers share. What a handler does to the outside (signals,
  waits, files, messages, goroutines it starts) is returned as a list of effects in program
  order.
\<close>

record os_Process =
  Pid :: int

record RunningProcessInfo =
  Process :: os_Process
  Port :: int

record manager =
  runningProcs :: "string \<rightharpoonup> RunningProcessInfo"
  usedPorts :: port_map

datatype effect =
    Send WsMessage
  | Kill os_Process
  | Wait os_Process
  | RemoveAll string
  | SaveConfigFile string string
  | GoWaitForProcessExit string os_Process int

record StopServerPayload =
  Name :: string
  Confirmed :: bool

text \<open>
  What the handlers read from the operating system: \<open>filepath.Join\<close>, and the content of a
  file (\<open>None\<close> when \<open>os.ReadFile\<close> fails).
\<close>

record os_files =
  Join :: "string list \<Rightarrow> string"
  ReadFile :: "string \<Rightarrow> string option"

definition configBaseDir :: string where
  "configBaseDir = ''./config''"

text \<open>
  \<open>handleStopServerProcess\<close>. The payload is \<open>None\<close> when the JSON does not decode. The
  player count the unconfirmed branch checks is the local constant of the source.
\<close>

definition handleStopServerProcess ::
  "config \<Rightarrow> os_files \<Rightarrow> manager \<Rightarrow> string \<Rightarrow> StopServerPayload option \<Rightarrow> manager \<times> effect list" where
  "handleStopServerProcess cfg os st requestID payload =
     (case payload of
        None \<Rightarrow> (st, map Send (sendErrorResponse requestID MsgPayloadDecodeFailed))
      | Some data \<Rightarrow>
          (let dummyPlayerCount = (0::int) in
           if \<not> Confirmed data \<and> dummyPlayerCount > 0
           then (st, [Send (sendResponse requestID False (MsgPlayersPresent dummyPlayerCount) []
                        (Some (True, dummyPlayerCount)))])
           else
             (case runningProcs st (Name data) of
                None \<Rightarrow> (st, [Send (sendResponse requestID False (MsgNotRunning (Name data)) [] None)])
              | Some processInfo \<Rightarrow>
                  (let st1 = st\<lparr>runningProcs := (runningProcs st)(Name data := None)\<rparr>;
                       processToStop = Process processInfo;
                       assignedPort = Port processInfo;
                       st2 = (if assignedPort \<noteq> -1
                              then st1\<lparr>usedPorts := releasePort cfg (usedPorts st1) assignedPort\<rparr>
                              else st1);
                       configDir = Join os [configBaseDir, Name data];
                       configFilePath = Join os [configDir, ''server_config.xml''];
                       response = (case ReadFile os configFilePath of
                                     None \<Rightarrow> sendResponse requestID True
                                               (MsgStoppedConfigUnreadable (Name data)) [] None
                                   | Some configContent \<Rightarrow> sendResponse requestID True
                                               (MsgStoppedWithConfig (Name data)) configContent None)
                   in (st2, [Kill processToStop, Wait processToStop, Send response,
                             RemoveAll configDir])))))"

text \<open>
  \<open>stopExistingProcess\<close>: removes the entry of a name, kills and awaits its process and
  releases its port; nothing happens when the name has no entry.
\<close>

definition stopExistingProcess :: "config \<Rightarrow> manager \<Rightarrow> string \<Rightarrow> manager \<times> effect list" where
  "stopExistingProcess cfg st name =
     (case runningProcs st name of
        None \<Rightarrow> (st, [])
      | Some existingInfo \<Rightarrow>
          (let st1 = st\<lparr>runningProcs := (runningProcs st)(name := None)\<rparr>;
               processToStop = Process existingInfo;
               assignedPort = Port existingInfo;
               st2 = (if assignedPort \<noteq> -1
                      then st1\<lparr>usedPorts := releasePort cfg (usedPorts st1) assignedPort\<rparr>
                      else st1)
           in (st2, [Kill processToStop, Wait processToStop])))"

text \<open>
  \<open>waitForProcessExit\<close> from the moment \<open>process.Wait()\<close> has returned. \<open>waitErr\<close> is the
  error text of the wait (\<open>None\<close> for a clean exit) and \<open>restart\<close> is what
  \<open>startServerProcess\<close> returns if the watch task calls it: the new process handle, or
  \<open>None\<close> when the process cannot be started.
\<close>

definition waitForProcessExit ::
  "config \<Rightarrow> manager \<Rightarrow> string \<Rightarrow> os_Process \<Rightarrow> int \<Rightarrow> string option \<Rightarrow> os_Process option
     \<Rightarrow> manager \<times> effect list" where
  "waitForProcessExit cfg st name process assignedPort waitErr restart =
     (let pid = Pid process;
          shouldRestart = (case runningProcs st name of
                             None \<Rightarrow> False
                           | Some processInfo \<Rightarrow> Pid (Process processInfo) = pid);
          st1 = (if shouldRestart then st\<lparr>runningProcs := (runningProcs st)(name := None)\<rparr> else st)
      in if shouldRestart
         then
           (let errMsg = (case waitErr of None \<Rightarrow> [] | Some e \<Rightarrow> e);
                crash = Send (sendServerEvent (ServerCrashDetected name pid errMsg))
            in case restart of
                 Some newProcess \<Rightarrow>
                   (st1\<lparr>runningProcs := (runningProcs st1)
                          (name \<mapsto> \<lparr>Process = newProcess, Port = assignedPort\<rparr>)\<rparr>,
                    [crash, GoWaitForProcessExit name newProcess assignedPort,
                     Send (sendServerEvent
                       (ServerRestartResult name True (MsgRestarted name (Pid newProcess))))])
               | None \<Rightarrow>
                   (st1\<lparr>usedPorts := releasePort cfg (usedPorts st1) assignedPort\<rparr>,
                    [crash,
                     Send (sendServerEvent (ServerRestartResult name False (MsgRestartFailed name)))]))
         else (st1, []))"

section \<open>Configuration documents as token streams\<close>

text \<open>
  The three passes over the configuration document read it with the token decoder of
  \<open>encoding/xml\<close> and hand tokens to its encoder. The types are those of the library:
  a name with namespace and local part, an attribute, and the six kinds of token.
\<close>

datatype xml_Name = xml_Name (Space: string) (Local: string)

datatype xml_Attr = xml_Attr (attr_Name: xml_Name) (Value: string)

datatype Token =
    StartElement xml_Name "xml_Attr list"
  | EndElement xml_Name
  | CharData string
  | Comment string
  | ProcInst string string
  | Directive string

text \<open>
  One result of \<open>decoder.Token()\<close>: a token, or an error; the end of the list is \<open>io.EOF\<close>.
  The encoder is a parameter \<open>accepts\<close>: whether \<open>EncodeToken\<close> succeeds for a token after
  the tokens encoded so far. The output of a pass is the list of tokens the encoder took.
\<close>

datatype read = Tok Token | ReadError

datatype xml_error = TokenReadError | TokenWriteError

type_synonym encoder = "Token list \<Rightarrow> Token \<Rightarrow> bool"

subsection \<open>Port rewrite\<close>

text \<open>\<open>strconv.Itoa\<close>: the decimal digits of an integer, with a minus sign when negative.\<close>

definition digit :: "nat \<Rightarrow> char" where
  "digit d = ''0123456789'' ! d"

fun digits :: "nat \<Rightarrow> string" where
  "digits n = (if n < 10 then [digit n] else digits (n div 10) @ [digit (n mod 10)])"

definition Itoa :: "int \<Rightarrow> string" where
  "Itoa i = (if i < 0 then CHR ''-'' # digits (nat (- i)) else digits (nat i))"

text \<open>
  The loop over the attributes of a \<open>server_data\<close> start tag: an attribute whose local name
  is \<open>port\<close> is replaced by a \<open>port\<close> attribute without namespace holding the new value,
  every other attribute is kept; the flag records whether a port attribute was seen.
\<close>

fun port_attrs :: "string \<Rightarrow> xml_Attr list \<Rightarrow> bool \<Rightarrow> xml_Attr list \<Rightarrow> xml_Attr list \<times> bool" where
  "port_attrs newPortStr updatedAttrs portAttrFound [] = (updatedAttrs, portAttrFound)"
| "port_attrs newPortStr updatedAttrs portAttrFound (attr # rest) =
     (if Local (attr_Name attr) = ''port''
      then port_attrs newPortStr (updatedAttrs @ [xml_Attr (xml_Name [] ''port'') newPortStr]) True rest
      else port_attrs newPortStr (updatedAttrs @ [attr]) portAttrFound rest)"

definition port_token :: "string \<Rightarrow> Token \<Rightarrow> Token" where
  "port_token newPortStr token =
     (case token of
        StartElement name attrs \<Rightarrow>
          (if Local name = ''server_data''
           then (case port_attrs newPortStr [] False attrs of
                   (updatedAttrs, portAttrFound) \<Rightarrow>
                     StartElement name
                       (if \<not> portAttrFound
                        then updatedAttrs @ [xml_Attr (xml_Name [] ''port'') newPortStr]
                        else updatedAttrs))
           else token)
      | _ \<Rightarrow> token)"

fun updateXmlPort_loop :: "encoder \<Rightarrow> string \<Rightarrow> Token list \<Rightarrow> read list \<Rightarrow> xml_error + Token list" where
  "updateXmlPort_loop accepts newPortStr out [] = Inr out"
| "updateXmlPort_loop accepts newPortStr out (ReadError # rest) = Inl TokenReadError"
| "updateXmlPort_loop accepts newPortStr out (Tok token # rest) =
     (if accepts out (port_token newPortStr token)
      then updateXmlPort_loop accepts newPortStr (out @ [port_token newPortStr token]) rest
      else Inl TokenWriteError)"

definition updateXmlPort :: "encoder \<Rightarrow> read list \<Rightarrow> int \<Rightarrow> xml_error + Token list" where
  "updateXmlPort accepts xml newPort = updateXmlPort_loop accepts (Itoa newPort) [] xml"

subsection \<open>Reference extraction\<close>

text \<open>
  \<open>workshopIDRegex\<close> is \<open>^\\d+$\<close>: one or more ASCII digits and nothing else.
\<close>

definition is_digit :: "char \<Rightarrow> bool" where
  "is_digit c = (48 \<le> (of_char c :: nat) \<and> (of_char c :: nat) \<le> 57)"

definition workshopIDRegex :: "string \<Rightarrow> bool" where
  "workshopIDRegex s = (s \<noteq> [] \<and> list_all is_digit s)"

text \<open>
  The loop over the attributes of a \<open>path\<close> start tag inside a container: it stops at the
  first attribute with local name \<open>path\<close> whose value matches, and yields that value.
\<close>

fun workshop_id :: "xml_Attr list \<Rightarrow> string option" where
  "workshop_id [] = None"
| "workshop_id (attr # rest) =
     (if Local (attr_Name attr) = ''path'' \<and> workshopIDRegex (Value attr) then Some (Value attr)
      else workshop_id rest)"

text \<open>
  The main loop. Its variables are the two container flags, the skip flag with its depth
  counter, the two id lists and the tokens encoded so far.
\<close>

fun extract_loop ::
  "encoder \<Rightarrow> bool \<Rightarrow> bool \<Rightarrow> bool \<Rightarrow> int \<Rightarrow> string list \<Rightarrow> string list \<Rightarrow> Token list \<Rightarrow> read list
     \<Rightarrow> xml_error + (string list \<times> string list \<times> Token list)" where
  "extract_loop accepts inPlaylists inMods skipElement depth playlistIDs modIDs out [] =
     Inr (playlistIDs, modIDs, out)"
| "extract_loop accepts inPlaylists inMods skipElement depth playlistIDs modIDs out (ReadError # rest) =
     Inl TokenReadError"
| "extract_loop accepts inPlaylists inMods skipElement depth playlistIDs modIDs out (Tok token # rest) =
     (if skipElement
      then
        (let depth' = (case token of
                         StartElement name attrs \<Rightarrow> depth + 1
                       | EndElement name \<Rightarrow> depth - 1
                       | _ \<Rightarrow> depth)
         in extract_loop accepts inPlaylists inMods (depth' \<noteq> 0) depth' playlistIDs modIDs out rest)
      else
        (case token of
           StartElement name attrs \<Rightarrow>
             (if Local name = ''playlists''
              then (if accepts out token
                    then extract_loop accepts True False False depth playlistIDs modIDs (out @ [token]) rest
                    else Inl TokenWriteError)
              else if Local name = ''mods''
              then (if accepts out token
                    then extract_loop accepts False True False depth playlistIDs modIDs (out @ [token]) rest
                    else Inl TokenWriteError)
              else
                (case (if (inPlaylists \<or> inMods) \<and> Local name = ''path'' then workshop_id attrs else None) of
                   Some itemID \<Rightarrow>
                     (if inPlaylists
                      then extract_loop accepts inPlaylists inMods True 1 (playlistIDs @ [itemID]) modIDs out rest
                      else extract_loop accepts inPlaylists inMods True 1 playlistIDs (modIDs @ [itemID]) out rest)
                 | None \<Rightarrow>
                     (if accepts out token
                      then extract_loop accepts inPlaylists inMods False depth playlistIDs modIDs (out @ [token]) rest
                      else Inl TokenWriteError)))
         | EndElement name \<Rightarrow>
             (if accepts out token
              then extract_loop accepts
                     (if Local name = ''playlists'' then False else inPlaylists)
                     (if Local name = ''playlists'' then inMods
                      else if Local name = ''mods'' then False else inMods)
                     False depth playlistIDs modIDs (out @ [token]) rest
              else Inl TokenWriteError)
         | _ \<Rightarrow>
             (if accepts out token
              then extract_loop accepts inPlaylists inMods False depth playlistIDs modIDs (out @ [token]) rest
              else Inl TokenWriteError)))"

definition extractWorkshopIDsAndModifyXML ::
  "encoder \<Rightarrow> read list \<Rightarrow> xml_error + (string list \<times> string list \<times> Token list)" where
  "extractWorkshopIDsAndModifyXML accepts xml = extract_loop accepts False False False 0 [] [] [] xml"

subsection \<open>Reference reinsertion\<close>

text \<open>
  The path values of the synthesized elements. A playlist path is a fixed prefix followed by
  the id. A mod path is \<open>filepath.Join\<close> of the absolute configuration directory,
  \<open>rom\<close>, \<open>data\<close>, \<open>workshop_mods\<close> and the id, with every slash replaced by a backslash;
  \<open>filepath.Join\<close> is the parameter \<open>join\<close>.
\<close>

definition playlistPath :: "string \<Rightarrow> string" where
  "playlistPath itemID = ''/rom/data/workshop_missions/'' @ itemID"

definition ReplaceAll_slash :: "string \<Rightarrow> string" where
  "ReplaceAll_slash s = map (\<lambda>c. if c = CHR ''/'' then CHR 0x5C else c) s"

definition modPathFinal :: "(string list \<Rightarrow> string) \<Rightarrow> string \<Rightarrow> string \<Rightarrow> string" where
  "modPathFinal join configDirAbsPath itemID =
     ReplaceAll_slash (join [configDirAbsPath, ''rom'', ''data'', ''workshop_mods'', itemID])"

definition pathElement :: "string \<Rightarrow> Token list" where
  "pathElement v =
     [StartElement (xml_Name [] ''path'') [xml_Attr (xml_Name [] ''path'') v],
      EndElement (xml_Name [] ''path'')]"

text \<open>Encoding several tokens in order, stopping at the first one the encoder refuses.\<close>

fun encode_tokens :: "encoder \<Rightarrow> Token list \<Rightarrow> Token list \<Rightarrow> xml_error + Token list" where
  "encode_tokens accepts out [] = Inr out"
| "encode_tokens accepts out (token # rest) =
     (if accepts out token then encode_tokens accepts (out @ [token]) rest else Inl TokenWriteError)"

definition synthesized ::
  "(string list \<Rightarrow> string) \<Rightarrow> string list \<Rightarrow> string list \<Rightarrow> string \<Rightarrow> Token \<Rightarrow> Token list" where
  "synthesized join successfulPlaylistIDs successfulModIDs configDirAbsPath token =
     (case token of
        EndElement et \<Rightarrow>
          (if Local et = ''playlists'' \<and> length successfulPlaylistIDs > 0
           then concat (map (\<lambda>itemID. pathElement (playlistPath itemID)) successfulPlaylistIDs)
           else if Local et = ''mods'' \<and> length successfulModIDs > 0
           then concat (map (\<lambda>itemID. pathElement (modPathFinal join configDirAbsPath itemID)) successfulModIDs)
           else [])
      | _ \<Rightarrow> [])"

fun addWorkshopPaths_loop ::
  "encoder \<Rightarrow> (string list \<Rightarrow> string) \<Rightarrow> string list \<Rightarrow> string list \<Rightarrow> string \<Rightarrow> Token list
     \<Rightarrow> read list \<Rightarrow> xml_error + Token list" where
  "addWorkshopPaths_loop accepts join pids mids dir out [] = Inr out"
| "addWorkshopPaths_loop accepts join pids mids dir out (ReadError # rest) = Inl TokenReadError"
| "addWorkshopPaths_loop accepts join pids mids dir out (Tok token # rest) =
     (case encode_tokens accepts out (synthesized join pids mids dir token @ [token]) of
        Inl e \<Rightarrow> Inl e
      | Inr out' \<Rightarrow> addWorkshopPaths_loop accepts join pids mids dir out' rest)"

definition addWorkshopPathsToXML ::
  "encoder \<Rightarrow> (string list \<Rightarrow> string) \<Rightarrow> read list \<Rightarrow> string list \<Rightarrow> string list \<Rightarrow> string
     \<Rightarrow> xml_error + Token list" where
  "addWorkshopPathsToXML accepts join xml successfulPlaylistIDs successfulModIDs configDirAbsPath =
     addWorkshopPaths_loop accepts join successfulPlaylistIDs successfulModIDs configDirAbsPath [] xml"

subsection \<open>Documents as trees\<close>

text \<open>
  The decoder checks that start and end tags match, so the tokens of a well-formed document
  are the tokens of a sequence of nodes: elements with their children, and the other kinds
  of token as leaves.
\<close>

datatype node =
    Element xml_Name "xml_Attr list" "node list"
  | Text string
  | CommentNode string
  | ProcInstNode string string
  | DirectiveNode string

fun tokens :: "node \<Rightarrow> Token list" where
  "tokens (Element name attrs children) =
     StartElement name attrs # concat (map tokens children) @ [EndElement name]"
| "tokens (Text s) = [CharData s]"
| "tokens (CommentNode s) = [Comment s]"
| "tokens (ProcInstNode target inst) = [ProcInst target inst]"
| "tokens (DirectiveNode s) = [Directive s]"

definition document :: "node list \<Rightarrow> read list" where
  "document nodes = map Tok (concat (map tokens nodes))"

text \<open>
  The extraction loop seen on a tree: what it does between the start tag of a node and the
  token after its end tag, given the two container flags at the start tag. The result is
  the flags afterwards, the playlist ids and mod ids it appended, and the nodes it encoded.
\<close>

fun pass_node :: "bool \<Rightarrow> bool \<Rightarrow> node \<Rightarrow> bool \<times> bool \<times> string list \<times> string list \<times> node list"
and pass_nodes :: "bool \<Rightarrow> bool \<Rightarrow> node list \<Rightarrow> bool \<times> bool \<times> string list \<times> string list \<times> node list" where
  "pass_node inP inM (Element name attrs children) =
     (if Local name = ''playlists'' then
        (case pass_nodes True False children of
           (inP', inM', pl, ml, cs) \<Rightarrow> (False, inM', pl, ml, [Element name attrs cs]))
      else if Local name = ''mods'' then
        (case pass_nodes False True children of
           (inP', inM', pl, ml, cs) \<Rightarrow> (inP', False, pl, ml, [Element name attrs cs]))
      else
        (case (if (inP \<or> inM) \<and> Local name = ''path'' then workshop_id attrs else None) of
           Some itemID \<Rightarrow> (if inP then (inP, inM, [itemID], [], []) else (inP, inM, [], [itemID], []))
         | None \<Rightarrow>
             (case pass_nodes inP inM children of
                (inP', inM', pl, ml, cs) \<Rightarrow> (inP', inM', pl, ml, [Element name attrs cs]))))"
| "pass_node inP inM (Text s) = (inP, inM, [], [], [Text s])"
| "pass_node inP inM (CommentNode s) = (inP, inM, [], [], [CommentNode s])"
| "pass_node inP inM (ProcInstNode t i) = (inP, inM, [], [], [ProcInstNode t i])"
| "pass_node inP inM (DirectiveNode s) = (inP, inM, [], [], [DirectiveNode s])"
| "pass_nodes inP inM [] = (inP, inM, [], [], [])"
| "pass_nodes inP inM (n # ns) =
     (case pass_node inP inM n of
        (inP1, inM1, pl1, ml1, ns1) \<Rightarrow>
          (case pass_nodes inP1 inM1 ns of
             (inP2, inM2, pl2, ml2, ns2) \<Rightarrow> (inP2, inM2, pl1 @ pl2, ml1 @ ml2, ns1 @ ns2)))"

subsection \<open>The passes as the specification words them\<close>

text \<open>
  The specification describes extraction on the tree: inside a container element named for
  playlists or for mods, an element that carries a numeric \<open>path\<close> attribute is a content
  reference; the pair of its value and the container kind is recorded in encounter order
  and the element is dropped entirely. \<open>spec_references\<close> and \<open>spec_prune\<close> are that
  description for the elements the code classifies: those named \<open>path\<close>, with the value of
  the first \<open>path\<close> attribute that is a nonempty digit string. The argument \<open>k\<close> is the
  kind of the enclosing container, if any.
\<close>

datatype kind = Playlist | Mod

definition container_kind :: "xml_Name \<Rightarrow> kind option" where
  "container_kind name =
     (if Local name = ''playlists'' then Some Playlist
      else if Local name = ''mods'' then Some Mod else None)"

fun spec_references :: "kind option \<Rightarrow> node \<Rightarrow> (string \<times> kind) list" where
  "spec_references k (Element name attrs children) =
     (case container_kind name of
        Some c \<Rightarrow> concat (map (spec_references (Some c)) children)
      | None \<Rightarrow>
          (case k of
             None \<Rightarrow> concat (map (spec_references k) children)
           | Some c \<Rightarrow>
               (case (if Local name = ''path'' then workshop_id attrs else None) of
                  Some itemID \<Rightarrow> [(itemID, c)]
                | None \<Rightarrow> concat (map (spec_references k) children))))"
| "spec_references k n = []"

fun spec_prune :: "kind option \<Rightarrow> node \<Rightarrow> node list" where
  "spec_prune k (Element name attrs children) =
     (case container_kind name of
        Some c \<Rightarrow> [Element name attrs (concat (map (spec_prune (Some c)) children))]
      | None \<Rightarrow>
          (case k of
             None \<Rightarrow> [Element name attrs (concat (map (spec_prune k) children))]
           | Some c \<Rightarrow>
               (case (if Local name = ''path'' then workshop_id attrs else None) of
                  Some itemID \<Rightarrow> []
                | None \<Rightarrow> [Element name attrs (concat (map (spec_prune k) children))])))"
| "spec_prune k n = [n]"

definition ids :: "kind \<Rightarrow> (string \<times> kind) list \<Rightarrow> string list" where
  "ids c refs = map fst (filter (\<lambda>r. snd r = c) refs)"

text \<open>
  A document has flat containers when no \<open>playlists\<close> or \<open>mods\<close> element lies inside
  another one; \<open>inside\<close> says whether the node is inside a container.
\<close>

fun flat_containers :: "bool \<Rightarrow> node \<Rightarrow> bool" where
  "flat_containers inside (Element name attrs children) =
     (case container_kind name of
        Some c \<Rightarrow> \<not> inside \<and> list_all (flat_containers True) children
      | None \<Rightarrow> list_all (flat_containers inside) children)"
| "flat_containers inside n = True"

text \<open>
  What lies outside the containers: the tree with the content of every container removed.
\<close>

fun outside :: "node \<Rightarrow> node" where
  "outside (Element name attrs children) =
     Element name attrs (if container_kind name = None then map outside children else [])"
| "outside n = n"

text \<open>
  A token without the part the port rewrite may touch: the \<open>port\<close> attributes of a
  \<open>server_data\<close> start tag.
\<close>

definition erase_port :: "Token \<Rightarrow> Token" where
  "erase_port token =
     (case token of
        StartElement name attrs \<Rightarrow>
          (if Local name = ''server_data''
           then StartElement name (filter (\<lambda>attr. Local (attr_Name attr) \<noteq> ''port'') attrs)
           else token)
      | _ \<Rightarrow> token)"

text \<open>
  Reinsertion on the tree: every \<open>playlists\<close> element gets one new leaf per playlist id
  after its last child, and every \<open>mods\<close> element one per mod id.
\<close>

definition path_node :: "string \<Rightarrow> node" where
  "path_node v = Element (xml_Name [] ''path'') [xml_Attr (xml_Name [] ''path'') v] []"

fun spec_add_paths :: "(string list \<Rightarrow> string) \<Rightarrow> string list \<Rightarrow> string list \<Rightarrow> string \<Rightarrow> node \<Rightarrow> node" where
  "spec_add_paths join pids mids dir (Element name attrs children) =
     Element name attrs
       (map (spec_add_paths join pids mids dir) children @
        (case container_kind name of
           Some Playlist \<Rightarrow> map (\<lambda>itemID. path_node (playlistPath itemID)) pids
         | Some Mod \<Rightarrow> map (\<lambda>itemID. path_node (modPathFinal join dir itemID)) mids
         | None \<Rightarrow> []))"
| "spec_add_paths join pids mids dir n = n"

section \<open>Fetching content\<close>

text \<open>
  \<open>DownloadWorkshopItems\<close> runs the external tool once for all ids, reads its output line by
  line, and then copies every fetched item into its install directory. What it asks of the
  outside is a record of parameters: path functions, \<open>os.Stat\<close>, \<open>os.RemoveAll\<close> and
  \<open>copyDir\<close> by their outcome for a path, the match of the success pattern against a line
  (the captured id), and the order in which \<open>range\<close> visits the entries of a map.
\<close>

datatype stat_result = StatOk | StatNotExist | StatError

datatype remove_result = RemoveOk | RemoveNotExist | RemoveError

record steam_os = os_files +
  Dir :: "string \<Rightarrow> string"
  Stat :: "string \<Rightarrow> stat_result"
  RemoveAllResult :: "string \<Rightarrow> remove_result"
  copyDir :: "string \<Rightarrow> string \<Rightarrow> bool"
  FindStringSubmatch :: "string \<Rightarrow> string option"
  rangeOrder :: "(string \<times> bool) list \<Rightarrow> (string \<times> bool) list"

datatype steamcmd_run =
    StdoutPipeFailed
  | StderrPipeFailed
  | StartFailed
  | Exited "string list" bool bool

datatype download_error = StdoutPipeError | StderrPipeError | StartError | OutputReadError

text \<open>
  A Go map that is ranged over is the list of its entries, with distinct keys; the order of
  the list means nothing, the order of a \<open>range\<close> is \<open>rangeOrder\<close>. The outcome of running the
  tool is its standard output by lines, whether reading the output failed, and whether the
  tool exited with an error.
\<close>

type_synonym go_map = "(string \<times> bool) list"

definition map_has :: "go_map \<Rightarrow> string \<Rightarrow> bool" where
  "map_has m k = (k \<in> fst ` set m)"

definition map_set :: "go_map \<Rightarrow> string \<Rightarrow> bool \<Rightarrow> go_map" where
  "map_set m k v = filter (\<lambda>e. fst e \<noteq> k) m @ [(k, v)]"

definition scan_line :: "'a steam_os_scheme \<Rightarrow> go_map \<Rightarrow> string \<Rightarrow> go_map" where
  "scan_line os downloadSuccessMap line =
     (case FindStringSubmatch os line of
        None \<Rightarrow> downloadSuccessMap
      | Some successfulID \<Rightarrow>
          (if \<not> map_has downloadSuccessMap successfulID
           then map_set downloadSuccessMap successfulID True
           else downloadSuccessMap))"

definition copy_item :: "'a steam_os_scheme \<Rightarrow> string \<Rightarrow> string \<Rightarrow> bool" where
  "copy_item os sourcePath targetPath =
     (if RemoveAllResult os targetPath = RemoveError then False
      else copyDir os sourcePath targetPath)"

fun materialize_loop ::
  "'a steam_os_scheme \<Rightarrow> (string \<rightharpoonup> string) \<Rightarrow> string \<Rightarrow> string \<Rightarrow> string \<Rightarrow> go_map \<Rightarrow> go_map \<Rightarrow> go_map" where
  "materialize_loop os allItems base playlistDir modDir finalSuccessMap [] = finalSuccessMap"
| "materialize_loop os allItems base playlistDir modDir finalSuccessMap ((itemID, downloaded) # rest) =
     (if \<not> downloaded then materialize_loop os allItems base playlistDir modDir finalSuccessMap rest
      else
        (case allItems itemID of
           None \<Rightarrow> materialize_loop os allItems base playlistDir modDir finalSuccessMap rest
         | Some itemType \<Rightarrow>
             (if itemType = ''playlist'' then
                (let sourcePath = Join os [base, itemID, ''playlist''];
                     targetPath = Join os [playlistDir, itemID]
                 in if Stat os sourcePath = StatOk \<and> copy_item os sourcePath targetPath
                    then materialize_loop os allItems base playlistDir modDir
                           (map_set finalSuccessMap itemID True) rest
                    else materialize_loop os allItems base playlistDir modDir finalSuccessMap rest)
              else if itemType = ''mod'' then
                (let sourcePath = Join os [base, itemID];
                     targetPath = Join os [modDir, itemID]
                 in if Stat os sourcePath = StatOk \<and> copy_item os sourcePath targetPath
                    then materialize_loop os allItems base playlistDir modDir
                           (map_set finalSuccessMap itemID True) rest
                    else materialize_loop os allItems base playlistDir modDir finalSuccessMap rest)
              else materialize_loop os allItems base playlistDir modDir finalSuccessMap rest)))"

fun collect_loop :: "(string \<rightharpoonup> string) \<Rightarrow> string list \<Rightarrow> string list \<Rightarrow> go_map \<Rightarrow> string list \<times> string list" where
  "collect_loop allItems successfulPlaylistIDs successfulModIDs [] = (successfulPlaylistIDs, successfulModIDs)"
| "collect_loop allItems successfulPlaylistIDs successfulModIDs ((itemID, success) # rest) =
     (if success then
        (let itemType = (case allItems itemID of None \<Rightarrow> [] | Some t \<Rightarrow> t)
         in if itemType = ''playlist''
            then collect_loop allItems (successfulPlaylistIDs @ [itemID]) successfulModIDs rest
            else if itemType = ''mod''
            then collect_loop allItems successfulPlaylistIDs (successfulModIDs @ [itemID]) rest
            else collect_loop allItems successfulPlaylistIDs successfulModIDs rest)
      else collect_loop allItems successfulPlaylistIDs successfulModIDs rest)"

definition all_items :: "string list \<Rightarrow> string list \<Rightarrow> (string \<rightharpoonup> string)" where
  "all_items playlistIDs modIDs =
     foldl (\<lambda>m itemID. m(itemID \<mapsto> ''mod''))
       (foldl (\<lambda>m itemID. m(itemID \<mapsto> ''playlist'')) Map.empty playlistIDs) modIDs"

definition DownloadWorkshopItems ::
  "'a steam_os_scheme \<Rightarrow> steamcmd_run \<Rightarrow> string list \<Rightarrow> string list \<Rightarrow> string \<Rightarrow> string \<Rightarrow> string \<Rightarrow> string
     \<Rightarrow> download_error + (string list \<times> string list)" where
  "DownloadWorkshopItems os run playlistIDs modIDs playlistDir modDir gameAppID steamCmdPath =
     (if length playlistIDs = 0 \<and> length modIDs = 0 then Inr ([], [])
      else
        (let allItems = all_items playlistIDs modIDs in
         case run of
           StdoutPipeFailed \<Rightarrow> Inl StdoutPipeError
         | StderrPipeFailed \<Rightarrow> Inl StderrPipeError
         | StartFailed \<Rightarrow> Inl StartError
         | Exited lines readErr waitErr \<Rightarrow>
             (if readErr then Inl OutputReadError
              else
                (let downloadSuccessMap = foldl (scan_line os) [] lines;
                     steamCmdDir = Dir os steamCmdPath;
                     steamCmdContentBase =
                       Join os [steamCmdDir, ''steamapps'', ''workshop'', ''content'', gameAppID];
                     finalSuccessMap =
                       materialize_loop os allItems steamCmdContentBase playlistDir modDir []
                         (rangeOrder os downloadSuccessMap)
                 in Inr (collect_loop allItems [] [] (rangeOrder os finalSuccessMap))))))"

text \<open>
  The two conditions of the specification: an id is remotely fetched when a line of the
  output carries the success marker for it; it is materialized without error when its
  source exists, the old target could be removed (its absence is no error) and the copy
  succeeded. The source and target paths follow the kind of the item.
\<close>

definition remotely_fetched :: "'a steam_os_scheme \<Rightarrow> string list \<Rightarrow> string \<Rightarrow> bool" where
  "remotely_fetched os lines itemID = (\<exists>line \<in> set lines. FindStringSubmatch os line = Some itemID)"

definition materialized :: "'a steam_os_scheme \<Rightarrow> string \<Rightarrow> string \<Rightarrow> string \<Rightarrow> string \<Rightarrow> kind \<Rightarrow> string \<Rightarrow> bool" where
  "materialized os gameAppID steamCmdPath playlistDir modDir k itemID =
     (let cache = Join os [Dir os steamCmdPath, ''steamapps'', ''workshop'', ''content'', gameAppID];
          source = (case k of Playlist \<Rightarrow> Join os [cache, itemID, ''playlist''] | Mod \<Rightarrow> Join os [cache, itemID]);
          target = (case k of Playlist \<Rightarrow> Join os [playlistDir, itemID] | Mod \<Rightarrow> Join os [modDir, itemID])
      in Stat os source = StatOk \<and> RemoveAllResult os target \<noteq> RemoveError \<and> copyDir os source target)"


text \<open>
  Invariant of the two maps the fetcher ranges over: the keys are distinct and every value
  is true. \<open>item_ok\<close> is the test one turn of the copy loop makes for an id.
\<close>

definition wf_map :: "go_map \<Rightarrow> bool" where
  "wf_map m = (distinct (map fst m) \<and> (\<forall>(k, v) \<in> set m. v))"

definition item_ok :: "'a steam_os_scheme \<Rightarrow> (string \<rightharpoonup> string) \<Rightarrow> string \<Rightarrow> string \<Rightarrow> string \<Rightarrow> string \<Rightarrow> bool" where
  "item_ok os allItems base playlistDir modDir itemID =
     (case allItems itemID of
        None \<Rightarrow> False
      | Some itemType \<Rightarrow>
          (if itemType = ''playlist''
           then Stat os (Join os [base, itemID, ''playlist'']) = StatOk \<and>
                copy_item os (Join os [base, itemID, ''playlist'']) (Join os [playlistDir, itemID])
           else if itemType = ''mod''
           then Stat os (Join os [base, itemID]) = StatOk \<and>
                copy_item os (Join os [base, itemID]) (Join os [modDir, itemID])
           else False))"


section \<open>The start workflow\<close>

text \<open>
  \<open>calculateFailedIDs\<close> puts the successful ids of both kinds into one map and keeps, in
  order, the requested playlist ids and then the requested mod ids that are not in it.
\<close>

definition calculateFailedIDs :: "string list \<Rightarrow> string list \<Rightarrow> string list \<Rightarrow> string list \<Rightarrow> string list" where
  "calculateFailedIDs requestedPlaylists requestedMods successfulPlaylists successfulMods =
     (let successMap = foldl (\<lambda>m itemID. m(itemID \<mapsto> True))
                         (foldl (\<lambda>m itemID. m(itemID \<mapsto> True)) Map.empty successfulPlaylists)
                         successfulMods;
          missing = (\<lambda>failedIDs itemID.
                       if \<not> (case successMap itemID of None \<Rightarrow> False | Some b \<Rightarrow> b)
                       then failedIDs @ [itemID] else failedIDs)
      in foldl missing (foldl missing [] requestedPlaylists) requestedMods)"

text \<open>
  What \<open>handleStartServerProcess\<close> asks of the outside, beyond the parameters of the
  fetcher: the decoder and the encoder of \<open>encoding/xml\<close> (the tokens the decoder reads from
  a string, whether the encoder takes a token, the string the encoder has written for the
  tokens it took), \<open>filepath.Abs\<close>, whether \<open>saveConfigFile\<close> succeeds, the process
  \<open>startServerProcess\<close> starts (\<open>None\<close> when it cannot), and the run of the content tool.
\<close>

record world = steam_os +
  Decode :: "string \<Rightarrow> read list"
  Accepts :: encoder
  Render :: "Token list \<Rightarrow> string"
  Abs :: "string \<Rightarrow> string option"
  saveConfigFile :: "string \<Rightarrow> string \<Rightarrow> bool"
  startServerProcess :: "string \<Rightarrow> string \<Rightarrow> os_Process option"
  steamcmd :: steamcmd_run

text \<open>
  The handler in three parts. \<open>workshop_stage\<close> is its steps 5 and 6 (fetching and
  reinsertion): the effects, and the failed ids with the document to save unless the
  handler returns there. \<open>launch_stage\<close> is its steps 7 to 13 (saving the document, marking
  the port, stopping an old process of the same name, starting the new one, registering it,
  responding, starting the watch task). \<open>handleStartServerProcess\<close> is the whole.
\<close>

definition workshop_stage ::
  "'a world_scheme \<Rightarrow> config \<Rightarrow> string \<Rightarrow> string \<Rightarrow> string list \<Rightarrow> string list \<Rightarrow> string
     \<Rightarrow> effect list \<times> (string list \<times> string) option" where
  "workshop_stage w cfg requestID name playlistIDs modIDs xmlWithIdsRemoved =
     (if length playlistIDs > 0 \<or> length modIDs > 0 then
        (let started = Send (sendStatusUpdate requestID ''workshop_download_start'' MsgDownloadStart);
             result = DownloadWorkshopItems w (steamcmd w) playlistIDs modIDs
                        (WorkshopPlaylistsInstallDir cfg) (WorkshopModsInstallDir cfg)
                        (GameAppID cfg) (SteamCmdPath cfg);
             successfulPlaylistIDs = (case result of Inl e \<Rightarrow> [] | Inr (sp, sm) \<Rightarrow> sp);
             successfulModIDs = (case result of Inl e \<Rightarrow> [] | Inr (sp, sm) \<Rightarrow> sm);
             failed = (case result of
                         Inl e \<Rightarrow> [Send (sendStatusUpdate requestID ''workshop_download_error'' MsgDownloadError)]
                       | Inr r \<Rightarrow> []);
             failedItemIDs = calculateFailedIDs playlistIDs modIDs successfulPlaylistIDs successfulModIDs;
             completed = Send (sendStatusUpdate requestID ''workshop_download_complete''
                           (MsgDownloadComplete (length successfulPlaylistIDs + length successfulModIDs)
                              (length playlistIDs + length modIDs) (length failedItemIDs)));
             configDir = Join w [configBaseDir, name]
         in case Abs w configDir of
              None \<Rightarrow>
                ([started] @ failed @
                 [completed, Send (sendResponse requestID False MsgPathResolveFailed [] None)], None)
            | Some configDirAbs \<Rightarrow>
                (case addWorkshopPathsToXML (Accepts w) (Join w) (Decode w xmlWithIdsRemoved)
                        successfulPlaylistIDs successfulModIDs configDirAbs of
                   Inl e \<Rightarrow>
                     ([started] @ failed @
                      [completed, Send (sendResponse requestID False MsgAddPathsFailed [] None)], None)
                 | Inr finalXml \<Rightarrow>
                     ([started] @ failed @ [completed], Some (failedItemIDs, Render w finalXml))))
      else ([], Some ([], xmlWithIdsRemoved)))"

definition launch_stage ::
  "'a world_scheme \<Rightarrow> config \<Rightarrow> manager \<Rightarrow> string \<Rightarrow> string \<Rightarrow> int \<Rightarrow> string list \<Rightarrow> string
     \<Rightarrow> manager \<times> effect list" where
  "launch_stage w cfg st requestID name assignedPort failedItemIDs xmlToSave =
     (let configDir = Join w [configBaseDir, name] in
      if \<not> saveConfigFile w name xmlToSave
      then (st, [SaveConfigFile name xmlToSave, Send (sendResponse requestID False MsgSaveFailed [] None)])
      else
        (case assignPort cfg (usedPorts st) assignedPort of
           (False, used) \<Rightarrow>
             (st, [SaveConfigFile name xmlToSave,
                   Send (sendResponse requestID False (MsgPortConflict assignedPort) [] None),
                   RemoveAll configDir])
         | (True, used) \<Rightarrow>
             (case stopExistingProcess cfg (st\<lparr>usedPorts := used\<rparr>) name of
                (st2, stopped) \<Rightarrow>
                  (case startServerProcess w name configDir of
                     None \<Rightarrow>
                       (st2\<lparr>usedPorts := releasePort cfg (usedPorts st2) assignedPort\<rparr>,
                        [SaveConfigFile name xmlToSave] @ stopped @
                        [RemoveAll configDir, Send (sendResponse requestID False MsgSpawnFailed [] None)])
                   | Some process \<Rightarrow>
                       (st2\<lparr>runningProcs := (runningProcs st2)
                              (name \<mapsto> \<lparr>Process = process, Port = assignedPort\<rparr>)\<rparr>,
                        [SaveConfigFile name xmlToSave] @ stopped @
                        [Send (sendStartSuccessResponse requestID
                                 (MsgStartSucceeded name (Pid process) (length failedItemIDs))
                                 assignedPort failedItemIDs),
                         GoWaitForProcessExit name process assignedPort])))))"

definition handleStartServerProcess ::
  "'a world_scheme \<Rightarrow> config \<Rightarrow> manager \<Rightarrow> string \<Rightarrow> StartServerPayload option \<Rightarrow> manager \<times> effect list" where
  "handleStartServerProcess w cfg st requestID payload =
     (case payload of
        None \<Rightarrow> (st, map Send (sendErrorResponse requestID MsgPayloadDecodeFailed))
      | Some data \<Rightarrow>
          (case findAvailablePort (usedPorts st) (MinPort cfg) (MaxPort cfg) of
             Inl e \<Rightarrow> (st, [Send (sendResponse requestID False MsgNoFreePort [] None)])
           | Inr assignedPort \<Rightarrow>
               (case updateXmlPort (Accepts w) (Decode w (StartServerPayload.Config data)) assignedPort of
                  Inl e \<Rightarrow> (st, [Send (sendResponse requestID False MsgPortUpdateFailed [] None)])
                | Inr xmlWithPort \<Rightarrow>
                    (case extractWorkshopIDsAndModifyXML (Accepts w) (Decode w (Render w xmlWithPort)) of
                       Inl e \<Rightarrow> (st, [Send (sendResponse requestID False MsgExtractFailed [] None)])
                     | Inr (playlistIDs, modIDs, xmlWithIdsRemoved) \<Rightarrow>
                         (case workshop_stage w cfg requestID (StartServerPayload.Name data)
                                 playlistIDs modIDs (Render w xmlWithIdsRemoved) of
                            (effects, None) \<Rightarrow> (st, effects)
                          | (effects, Some (failedItemIDs, xmlToSave)) \<Rightarrow>
                              (case launch_stage w cfg st requestID (StartServerPayload.Name data)
                                      assignedPort failedItemIDs xmlToSave of
                                 (st', launched) \<Rightarrow> (st', effects @ launched)))))))"

text \<open>The tokens of the elements reinsertion may synthesize for given success lists.\<close>

definition synthesized_elements :: "(string list \<Rightarrow> string) \<Rightarrow> string \<Rightarrow> string list \<Rightarrow> string list \<Rightarrow> Token set" where
  "synthesized_elements join dir sp sm =
     set (concat (map (\<lambda>itemID. pathElement (playlistPath itemID)) sp)) \<union>
     set (concat (map (\<lambda>itemID. pathElement (modPathFinal join dir itemID)) sm))"


section \<open>Concrete inputs\<close>

text \<open>Inputs at which the theorems below are instantiated.\<close>

definition example_config :: config where
  "example_config = \<lparr>WsURL = ''ws://bot'', ServerExePath = ''server64.exe'', AuthToken = ''t'',
     MinPort = 9000, MaxPort = 9001, WorkshopPlaylistsInstallDir = ''C:/sw/playlists'',
     WorkshopModsInstallDir = ''C:/sw/mods'', SteamCmdPath = ''C:/steamcmd/steamcmd.exe'',
     GameAppID = ''573090''\<rparr>"

definition example_files :: os_files where
  "example_files = \<lparr>Join = (\<lambda>parts. foldr (\<lambda>p acc. if acc = [] then p else p @ ''/'' @ acc) parts []),
     ReadFile = (\<lambda>path. if path = ''./config/a/server_config.xml''
                         then Some ''<server_data port=\"9000\"/>'' else None)\<rparr>"

definition example_manager :: manager where
  "example_manager = \<lparr>runningProcs = [''a'' \<mapsto> \<lparr>Process = \<lparr>Pid = 4242\<rparr>, Port = 9000\<rparr>],
     usedPorts = [9000 \<mapsto> True]\<rparr>"

definition el :: "string \<Rightarrow> (string \<times> string) list \<Rightarrow> node list \<Rightarrow> node" where
  "el name attrs children =
     Element (xml_Name [] name) (map (\<lambda>(a, v). xml_Attr (xml_Name [] a) v) attrs) children"

text \<open>The document of the specification's round-trip example.\<close>

definition example_document :: "node list" where
  "example_document =
     [el ''server_data'' [(''port'', ''0'')]
        [el ''playlists'' [] [el ''path'' [(''path'', ''123'')] [], el ''path'' [(''path'', ''abc'')] []]]]"

text \<open>A run of the content tool and the file system it meets.\<close>

definition example_steam :: steam_os where
  "example_steam = \<lparr>Join = Join example_files, ReadFile = ReadFile example_files,
     Dir = (\<lambda>path. ''C:/steamcmd''),
     Stat = (\<lambda>path. if path = ''C:/steamcmd/steamapps/workshop/content/573090/2/playlist''
                       then StatNotExist else StatOk),
     RemoveAllResult = (\<lambda>path. RemoveNotExist),
     copyDir = (\<lambda>source target. True),
     FindStringSubmatch = (\<lambda>line. if line = ''Success. Downloaded item 1'' then Some ''1''
                                   else if line = ''Success. Downloaded item 2'' then Some ''2''
                                   else if line = ''Success. Downloaded item 3'' then Some ''3''
                                   else None),
     rangeOrder = rev\<rparr>"

definition example_lines :: "string list" where
  "example_lines = [''Success. Downloaded item 1'', ''Success. Downloaded item 2'',
                    ''Success. Downloaded item 1'', ''Success. Downloaded item 3'']"


text \<open>A start request that succeeds while its one content id is not fetched.\<close>

definition example_tokens_with_port :: "Token list" where
  "example_tokens_with_port =
     [StartElement (xml_Name [] ''server_data'') [xml_Attr (xml_Name [] ''port'') ''9001''],
      StartElement (xml_Name [] ''playlists'') [],
      StartElement (xml_Name [] ''path'') [xml_Attr (xml_Name [] ''path'') ''123''],
      EndElement (xml_Name [] ''path''),
      StartElement (xml_Name [] ''path'') [xml_Attr (xml_Name [] ''path'') ''abc''],
      EndElement (xml_Name [] ''path''),
      EndElement (xml_Name [] ''playlists''),
      EndElement (xml_Name [] ''server_data'')]"

definition example_tokens_ids_removed :: "Token list" where
  "example_tokens_ids_removed =
     [StartElement (xml_Name [] ''server_data'') [xml_Attr (xml_Name [] ''port'') ''9001''],
      StartElement (xml_Name [] ''playlists'') [],
      StartElement (xml_Name [] ''path'') [xml_Attr (xml_Name [] ''path'') ''abc''],
      EndElement (xml_Name [] ''path''),
      EndElement (xml_Name [] ''playlists''),
      EndElement (xml_Name [] ''server_data'')]"

definition example_world :: world where
  "example_world = \<lparr>Join = Join example_files, ReadFile = ReadFile example_files,
     Dir = Dir example_steam, Stat = Stat example_steam,
     RemoveAllResult = RemoveAllResult example_steam, copyDir = copyDir example_steam,
     FindStringSubmatch = FindStringSubmatch example_steam, rangeOrder = rangeOrder example_steam,
     Decode = (\<lambda>xml. if xml = ''request'' then document example_document
                      else if xml = ''with port'' then map Tok example_tokens_with_port
                      else if xml = ''ids removed'' then map Tok example_tokens_ids_removed
                      else [ReadError]),
     Accepts = (\<lambda>out t. True),
     Render = (\<lambda>ts. if ts = example_tokens_with_port then ''with port''
                     else if ts = example_tokens_ids_removed then ''ids removed'' else ''other''),
     Abs = (\<lambda>path. Some (''C:/swsc/'' @ path)),
     saveConfigFile = (\<lambda>name xml. True),
     startServerProcess = (\<lambda>name dir. Some \<lparr>Pid = 4711\<rparr>),
     steamcmd = Exited example_lines False True\<rparr>"


section \<open>Searching a free port\<close>

declare findAvailablePort_from.simps [simp del]

lemma findAvailablePort_from_Inr:
  "findAvailablePort_from u p hi = Inr q \<longleftrightarrow>
     p \<le> q \<and> q \<le> hi \<and> \<not> portUsed u q \<and> (\<forall>r. p \<le> r \<and> r < q \<longrightarrow> portUsed u r)"
proof (induction u p hi rule: findAvailablePort_from.induct)
  case (1 u p hi)
  show ?case
  proof (cases "p \<le> hi")
    case False
    then show ?thesis
      by (subst findAvailablePort_from.simps) auto
  next
    case le: True
    show ?thesis
    proof (cases "portUsed u p")
      case False
      with le show ?thesis
        by (subst findAvailablePort_from.simps) (auto simp: not_less)
    next
      case used: True
      have step: "findAvailablePort_from u p hi = findAvailablePort_from u (p + 1) hi"
        using le used by (subst findAvailablePort_from.simps) simp
      have "(p + 1 \<le> q \<and> q \<le> hi \<and> \<not> portUsed u q \<and> (\<forall>r. p + 1 \<le> r \<and> r < q \<longrightarrow> portUsed u r))
            \<longleftrightarrow> (p \<le> q \<and> q \<le> hi \<and> \<not> portUsed u q \<and> (\<forall>r. p \<le> r \<and> r < q \<longrightarrow> portUsed u r))"
        (is "?L \<longleftrightarrow> ?R")
      proof
        assume L: ?L
        have "portUsed u r" if "p \<le> r \<and> r < q" for r
          using that L used by (cases "r = p") auto
        with L show ?R by auto
      next
        assume R: ?R
        then have "q \<noteq> p" using used by auto
        with R show ?L by auto
      qed
      with "1.IH"[OF le] used step show ?thesis by simp
    qed
  qed
qed

lemma findAvailablePort_from_Inl:
  "findAvailablePort_from u p hi = Inl e \<longleftrightarrow> (\<forall>r. p \<le> r \<and> r \<le> hi \<longrightarrow> portUsed u r)"
proof (induction u p hi rule: findAvailablePort_from.induct)
  case (1 u p hi)
  show ?case
  proof (cases "p \<le> hi")
    case False
    then show ?thesis
      by (subst findAvailablePort_from.simps) (cases e, auto)
  next
    case le: True
    show ?thesis
    proof (cases "portUsed u p")
      case False
      with le show ?thesis
        by (subst findAvailablePort_from.simps) auto
    next
      case used: True
      have step: "findAvailablePort_from u p hi = findAvailablePort_from u (p + 1) hi"
        using le used by (subst findAvailablePort_from.simps) simp
      have "(\<forall>r. p + 1 \<le> r \<and> r \<le> hi \<longrightarrow> portUsed u r) \<longleftrightarrow> (\<forall>r. p \<le> r \<and> r \<le> hi \<longrightarrow> portUsed u r)"
        (is "?L \<longleftrightarrow> ?R")
      proof
        assume L: ?L
        have "portUsed u r" if "p \<le> r \<and> r \<le> hi" for r
          using that L used by (cases "r = p") auto
        then show ?R by auto
      next
        assume ?R then show ?L by auto
      qed
      with "1.IH"[OF le] used step show ?thesis by simp
    qed
  qed
qed

text \<open>
  C2. For a range with \<open>minPort \<le> maxPort\<close> and any map of used ports, the search returns
  a port exactly when that port is the lowest one of the inclusive range that is not marked,
  and it fails exactly when every port of the range is marked.
\<close>

theorem findAvailablePort_lowest_free:
  assumes "minPort \<le> maxPort"
  shows "(findAvailablePort used minPort maxPort = Inr p \<longleftrightarrow>
            minPort \<le> p \<and> p \<le> maxPort \<and> \<not> portUsed used p \<and>
            (\<forall>q. minPort \<le> q \<and> q < p \<longrightarrow> portUsed used q))
       \<and> (findAvailablePort used minPort maxPort = Inl NoAvailablePort \<longleftrightarrow>
            (\<forall>q. minPort \<le> q \<and> q \<le> maxPort \<longrightarrow> portUsed used q))"
  unfolding findAvailablePort_def
  by (simp only: findAvailablePort_from_Inr findAvailablePort_from_Inl)

theorem findAvailablePort_lowest_free_witness:
  "(9000::int) \<le> 9001
   \<and> findAvailablePort [9000 \<mapsto> True] 9000 9001 = Inr 9001
   \<and> findAvailablePort [9000 \<mapsto> True, 9001 \<mapsto> True] 9000 9001 = Inl NoAvailablePort"
proof -
  have le: "(9000::int) \<le> 9001" by simp
  have a: "\<forall>q::int. 9000 \<le> q \<and> q < 9001 \<longrightarrow> portUsed [9000 \<mapsto> True] q"
    by (auto simp: portUsed_def)
  have b: "\<forall>q::int. 9000 \<le> q \<and> q \<le> 9001 \<longrightarrow> portUsed [9000 \<mapsto> True, 9001 \<mapsto> True] q"
  proof (intro allI impI)
    fix q :: int assume "9000 \<le> q \<and> q \<le> 9001"
    then have "q = 9000 \<or> q = 9001" by arith
    then show "portUsed [9000 \<mapsto> True, 9001 \<mapsto> True] q"
      by (auto simp: portUsed_def)
  qed
  have c: "\<not> portUsed [9000 \<mapsto> True] (9001::int)" by (simp add: portUsed_def)
  from findAvailablePort_lowest_free[OF le, of "[9000 \<mapsto> True]" 9001] a c
  have r1: "findAvailablePort [9000 \<mapsto> True] 9000 9001 = Inr 9001" by simp
  from findAvailablePort_lowest_free[OF le, of "[9000 \<mapsto> True, 9001 \<mapsto> True]" 0] b
  have r2: "findAvailablePort [9000 \<mapsto> True, 9001 \<mapsto> True] 9000 9001 = Inl NoAvailablePort"
    by blast
  from le r1 r2 show ?thesis by blast
qed

section \<open>The status message\<close>

text \<open>
  C10. On a successful connection the \<open>syncStatus\<close> message is the one \<open>sendSyncStatus\<close>
  builds. With \<open>MaxPort \<ge> MinPort\<close> its \<open>MaxServers\<close> is \<open>MaxPort - MinPort\<close>, which is one less
  than the number of ports of the inclusive range; with \<open>MaxPort < MinPort\<close> it is 0.
\<close>

theorem sendSyncStatus_MaxServers:
  "(MinPort cfg \<le> MaxPort cfg \<longrightarrow>
      ConnectWebSocket cfg Connected running = Inr (sendSyncStatus cfg running) \<and>
      Payload (sendSyncStatus cfg running) =
        SyncStatus \<lparr>RunningServers = running, MaxServers = MaxPort cfg - MinPort cfg\<rparr> \<and>
      MaxPort cfg - MinPort cfg + 1 = int (card {MinPort cfg..MaxPort cfg}))
   \<and> (MaxPort cfg < MinPort cfg \<longrightarrow>
      Payload (sendSyncStatus cfg running) = SyncStatus \<lparr>RunningServers = running, MaxServers = 0\<rparr>)"
  by (simp add: sendSyncStatus_def ConnectWebSocket_def)

theorem sendSyncStatus_MaxServers_witness:
  "MinPort example_config \<le> MaxPort example_config
   \<and> Payload (sendSyncStatus example_config [''a'']) =
        SyncStatus \<lparr>RunningServers = [''a''], MaxServers = 1\<rparr>
   \<and> MaxPort (example_config\<lparr>MinPort := 9002\<rparr>) < MinPort (example_config\<lparr>MinPort := 9002\<rparr>)
   \<and> Payload (sendSyncStatus (example_config\<lparr>MinPort := 9002\<rparr>) []) =
        SyncStatus \<lparr>RunningServers = [], MaxServers = 0\<rparr>"
  using sendSyncStatus_MaxServers[of example_config "[''a'']"]
        sendSyncStatus_MaxServers[of "example_config\<lparr>MinPort := 9002\<rparr>" "[]"]
  by (simp add: example_config_def)

section \<open>Stopping a server\<close>

text \<open>
  C9. A stop request with \<open>confirmed = false\<close> behaves exactly as one with
  \<open>confirmed = true\<close>: no response it sends asks for confirmation, the name has no entry in
  the process table afterwards, and when it had one the first effects are the kill of and
  the wait for that process.
\<close>

theorem handleStopServerProcess_unconfirmed_proceeds:
  "handleStopServerProcess cfg os st requestID (Some \<lparr>Name = name, Confirmed = False\<rparr>)
     = handleStopServerProcess cfg os st requestID (Some \<lparr>Name = name, Confirmed = True\<rparr>)
   \<and> (\<forall>m r. Send m \<in> set (snd (handleStopServerProcess cfg os st requestID
                   (Some \<lparr>Name = name, Confirmed = False\<rparr>))) \<and> Payload m = Response r
            \<longrightarrow> \<not> NeedsConfirmation r)
   \<and> runningProcs (fst (handleStopServerProcess cfg os st requestID
                   (Some \<lparr>Name = name, Confirmed = False\<rparr>))) name = None
   \<and> (\<forall>info. runningProcs st name = Some info \<longrightarrow>
         take 2 (snd (handleStopServerProcess cfg os st requestID
                   (Some \<lparr>Name = name, Confirmed = False\<rparr>)))
           = [Kill (Process info), Wait (Process info)])"
  by (auto simp: handleStopServerProcess_def sendResponse_def Let_def split: option.splits)

theorem handleStopServerProcess_unconfirmed_proceeds_witness:
  "runningProcs example_manager ''a'' = Some \<lparr>Process = \<lparr>Pid = 4242\<rparr>, Port = 9000\<rparr>
   \<and> take 2 (snd (handleStopServerProcess example_config example_files example_manager ''r1''
                   (Some \<lparr>Name = ''a'', Confirmed = False\<rparr>)))
         = [Kill \<lparr>Pid = 4242\<rparr>, Wait \<lparr>Pid = 4242\<rparr>]
   \<and> Send (sendResponse ''r1'' True (MsgStoppedWithConfig ''a'') ''<server_data port=\"9000\"/>'' None)
         \<in> set (snd (handleStopServerProcess example_config example_files example_manager ''r1''
                   (Some \<lparr>Name = ''a'', Confirmed = False\<rparr>)))"
  using handleStopServerProcess_unconfirmed_proceeds[of example_config example_files
          example_manager "''r1''" "''a''"]
  by (simp add: example_manager_def handleStopServerProcess_def example_files_def
        configBaseDir_def Let_def)

section \<open>Restart after a crash\<close>

text \<open>
  C6. The watch task of a process is started with the port stored in the record of that
  process. When the process exits while its record is still in the table and the restart
  succeeds, the table afterwards is the old table with, under the same name, the old record
  in which only the process handle is replaced; the port map is untouched, and the new watch
  task is started with the same port.
\<close>

theorem waitForProcessExit_restart_keeps_port:
  assumes "runningProcs st name = Some info"
      and "Pid (Process info) = Pid process"
      and "Port info = assignedPort"
  shows "waitForProcessExit cfg st name process assignedPort waitErr (Some newProcess) =
           (st\<lparr>runningProcs := (runningProcs st)(name \<mapsto> info\<lparr>Process := newProcess\<rparr>)\<rparr>,
            [Send (sendServerEvent (ServerCrashDetected name (Pid process)
                     (case waitErr of None \<Rightarrow> [] | Some e \<Rightarrow> e))),
             GoWaitForProcessExit name newProcess (Port info),
             Send (sendServerEvent (ServerRestartResult name True (MsgRestarted name (Pid newProcess))))])"
  using assms by (cases info) (simp add: waitForProcessExit_def Let_def)

theorem waitForProcessExit_restart_keeps_port_witness:
  "runningProcs example_manager ''a'' = Some \<lparr>Process = \<lparr>Pid = 4242\<rparr>, Port = 9000\<rparr>
   \<and> runningProcs (fst (waitForProcessExit example_config example_manager ''a'' \<lparr>Pid = 4242\<rparr> 9000
                          (Some ''exit status 1'') (Some \<lparr>Pid = 4711\<rparr>))) ''a''
         = Some \<lparr>Process = \<lparr>Pid = 4711\<rparr>, Port = 9000\<rparr>
   \<and> usedPorts (fst (waitForProcessExit example_config example_manager ''a'' \<lparr>Pid = 4242\<rparr> 9000
                          (Some ''exit status 1'') (Some \<lparr>Pid = 4711\<rparr>))) = usedPorts example_manager"
  using waitForProcessExit_restart_keeps_port[of example_manager "''a''"
          "\<lparr>Process = \<lparr>Pid = 4242\<rparr>, Port = 9000\<rparr>" "\<lparr>Pid = 4242\<rparr>" 9000 example_config
          "Some ''exit status 1''" "\<lparr>Pid = 4711\<rparr>"]
  by (simp add: example_manager_def)

section \<open>The configuration passes\<close>

declare extract_loop.simps(3) [simp del]

lemma extract_skip_step:
  "extract_loop a inP inM True d pl ml out (Tok t # rest) =
     (let d' = (case t of StartElement name attrs \<Rightarrow> d + 1 | EndElement name \<Rightarrow> d - 1 | _ \<Rightarrow> d)
      in extract_loop a inP inM (d' \<noteq> 0) d' pl ml out rest)"
  by (simp add: extract_loop.simps(3))

lemma extract_depth_irrelevant:
  "extract_loop a inP inM False d pl ml out rs = extract_loop a inP inM False d' pl ml out rs"
proof (induction rs arbitrary: inP inM pl ml out)
  case Nil
  show ?case by simp
next
  case (Cons r rs)
  show ?case
  proof (cases r)
    case ReadError
    then show ?thesis by simp
  next
    case (Tok t)
    show ?thesis
      unfolding Tok extract_loop.simps(3)
      by (auto split: Token.splits option.splits intro: Cons.IH)
  qed
qed

lemma skip_node:
  "1 \<le> d \<Longrightarrow> extract_loop a inP inM True d pl ml out (map Tok (tokens n) @ rest)
     = extract_loop a inP inM True d pl ml out rest"
proof (induction n arbitrary: d rest)
  case (Element name attrs children)
  have kids: "extract_loop a inP inM True e pl ml out (map Tok (concat (map tokens cs)) @ r)
              = extract_loop a inP inM True e pl ml out r"
    if "set cs \<subseteq> set children" "1 \<le> e" for cs e r
    using that
  proof (induction cs arbitrary: r)
    case Nil
    show ?case by simp
  next
    case (Cons c cs)
    then show ?case using Element.IH[of c e] by simp
  qed
  from Element.prems show ?case
    by (simp add: extract_skip_step kids)
qed (simp_all add: extract_skip_step)

lemma skip_nodes:
  "1 \<le> d \<Longrightarrow> extract_loop a inP inM True d pl ml out (map Tok (concat (map tokens ns)) @ rest)
     = extract_loop a inP inM True d pl ml out rest"
  by (induction ns arbitrary: rest) (simp_all add: skip_node)


lemma extract_other_step:
  "\<not> (\<exists>name attrs. t = StartElement name attrs) \<Longrightarrow> \<not> (\<exists>name. t = EndElement name) \<Longrightarrow>
   extract_loop (\<lambda>_ _. True) inP inM False d pl ml out (Tok t # rest) =
     extract_loop (\<lambda>_ _. True) inP inM False d pl ml (out @ [t]) rest"
  by (cases t) (simp_all add: extract_loop.simps(3))

lemma extract_drop_element:
  assumes "Local name \<noteq> ''playlists''" "Local name \<noteq> ''mods''"
      and "(if (inP \<or> inM) \<and> Local name = ''path'' then workshop_id attrs else None) = Some itemID"
  shows "extract_loop a inP inM False d pl ml out
           (map Tok (tokens (Element name attrs children)) @ rest) =
         extract_loop a inP inM False d
           (if inP then pl @ [itemID] else pl) (if inP then ml else ml @ [itemID]) out rest"
proof -
  have "extract_loop a inP inM False d pl ml out
           (map Tok (tokens (Element name attrs children)) @ rest) =
        extract_loop a inP inM True 1
           (if inP then pl @ [itemID] else pl) (if inP then ml else ml @ [itemID]) out
           (map Tok (concat (map tokens children)) @ Tok (EndElement name) # rest)"
    using assms by (simp add: extract_loop.simps(3))
  also have "\<dots> = extract_loop a inP inM True 1
           (if inP then pl @ [itemID] else pl) (if inP then ml else ml @ [itemID]) out
           (Tok (EndElement name) # rest)"
    by (rule skip_nodes) simp
  also have "\<dots> = extract_loop a inP inM False 0
           (if inP then pl @ [itemID] else pl) (if inP then ml else ml @ [itemID]) out rest"
    by (simp add: extract_skip_step)
  also have "\<dots> = extract_loop a inP inM False d
           (if inP then pl @ [itemID] else pl) (if inP then ml else ml @ [itemID]) out rest"
    by (rule extract_depth_irrelevant)
  finally show ?thesis .
qed

lemma extract_pass:
  shows "extract_loop (\<lambda>_ _. True) inP inM False d pl ml out (map Tok (tokens n) @ rest) =
     (case pass_node inP inM n of
        (inP', inM', pl', ml', ns) \<Rightarrow>
          extract_loop (\<lambda>_ _. True) inP' inM' False d (pl @ pl') (ml @ ml')
            (out @ concat (map tokens ns)) rest)"
  and
  "extract_loop (\<lambda>_ _. True) inP inM False d pl ml out (map Tok (concat (map tokens ms)) @ rest) =
     (case pass_nodes inP inM ms of
        (inP', inM', pl', ml', ns) \<Rightarrow>
          extract_loop (\<lambda>_ _. True) inP' inM' False d (pl @ pl') (ml @ ml')
            (out @ concat (map tokens ns)) rest)"
proof (induction inP inM n and inP inM ms arbitrary: pl ml out rest and pl ml out rest
       rule: pass_node_pass_nodes.induct)
  case (1 inP inM name attrs children)
  show ?case
  proof (cases "Local name = ''playlists''")
    case True
    then show ?thesis
      using "1.IH"(1)[OF True, of pl ml "out @ [StartElement name attrs]" "Tok (EndElement name) # rest"]
      by (simp add: extract_loop.simps(3) split: prod.splits)
  next
    case np: False
    show ?thesis
    proof (cases "Local name = ''mods''")
      case True
      then show ?thesis
        using np "1.IH"(2)[OF np True, of pl ml "out @ [StartElement name attrs]" "Tok (EndElement name) # rest"]
        by (simp add: extract_loop.simps(3) split: prod.splits)
    next
      case nm: False
      show ?thesis
      proof (cases "(if (inP \<or> inM) \<and> Local name = ''path'' then workshop_id attrs else None)")
        case (Some itemID)
        from extract_drop_element[OF np nm Some] np nm Some show ?thesis
          by simp
      next
        case None
        then show ?thesis
          using np nm "1.IH"(3)[OF np nm None, of pl ml "out @ [StartElement name attrs]" "Tok (EndElement name) # rest"]
          by (simp add: extract_loop.simps(3) split: prod.splits)
      qed
    qed
  qed
next
  case (7 inP inM n ns)
  show ?case
    using "7.IH"(1)[of pl ml out "map Tok (concat (map tokens ns)) @ rest"] "7.IH"(2)
    by (simp split: prod.splits)
qed (simp_all add: extract_other_step)


lemma ids_append [simp]: "ids c (xs @ ys) = ids c xs @ ids c ys"
  by (simp add: ids_def)

lemma ids_Nil [simp]: "ids c [] = []"
  by (simp add: ids_def)

lemma pass_flat:
  shows "inP = (k = Some Playlist) \<Longrightarrow> inM = (k = Some Mod) \<Longrightarrow> flat_containers (k \<noteq> None) n \<Longrightarrow>
     pass_node inP inM n = (inP, inM, ids Playlist (spec_references k n), ids Mod (spec_references k n), spec_prune k n)"
  and
  "inP = (k = Some Playlist) \<Longrightarrow> inM = (k = Some Mod) \<Longrightarrow> list_all (flat_containers (k \<noteq> None)) ms \<Longrightarrow>
     pass_nodes inP inM ms = (inP, inM, ids Playlist (concat (map (spec_references k) ms)),
                               ids Mod (concat (map (spec_references k) ms)), concat (map (spec_prune k) ms))"
proof (induction inP inM n and inP inM ms arbitrary: k and k rule: pass_node_pass_nodes.induct)
  case (1 inP inM name attrs children)
  show ?case
  proof (cases "Local name = ''playlists''")
    case True
    with "1.prems" have k: "k = None" and fl: "list_all (flat_containers True) children"
      by (auto simp: container_kind_def)
    from "1.IH"(1)[OF True, of "Some Playlist"] fl True k "1.prems" show ?thesis
      by (simp add: container_kind_def)
  next
    case np: False
    show ?thesis
    proof (cases "Local name = ''mods''")
      case True
      with np "1.prems" have k: "k = None" and fl: "list_all (flat_containers True) children"
        by (auto simp: container_kind_def)
      from "1.IH"(2)[OF np True, of "Some Mod"] fl True np k "1.prems" show ?thesis
        by (simp add: container_kind_def)
    next
      case nm: False
      with np have ck: "container_kind name = None" by (simp add: container_kind_def)
      with "1.prems" have fl: "list_all (flat_containers (k \<noteq> None)) children" by simp
      show ?thesis
      proof (cases "(if (inP \<or> inM) \<and> Local name = ''path'' then workshop_id attrs else None)")
        case (Some itemID)
        then have "inP \<or> inM" by (auto split: if_splits)
        with "1.prems" obtain c where c: "k = Some c" by (cases k) auto
        from Some c "1.prems" np nm ck show ?thesis
          by (cases c) (auto simp: ids_def split: if_splits)
      next
        case None
        note no_id = None
        from "1.IH"(3)[OF np nm None "1.prems"(1,2) fl]
        have ih: "pass_nodes inP inM children =
                    (inP, inM, ids Playlist (concat (map (spec_references k) children)),
                     ids Mod (concat (map (spec_references k) children)), concat (map (spec_prune k) children))" .
        show ?thesis
        proof (cases k)
          case None
          with ih no_id np nm ck "1.prems" show ?thesis by simp
        next
          case (Some c)
          with "1.prems" have "inP \<or> inM" by (cases c) auto
          with no_id have "(if Local name = ''path'' then workshop_id attrs else None) = None"
            by (auto split: if_splits)
          with ih no_id np nm ck Some show ?thesis by simp
        qed
      qed
    qed
  qed
next
  case (7 inP inM n ns)
  from "7.prems" have a: "flat_containers (k \<noteq> None) n" and b: "list_all (flat_containers (k \<noteq> None)) ns"
    by simp_all
  from "7.IH"(1)[OF "7.prems"(1,2) a]
  have p: "pass_node inP inM n = (inP, inM, ids Playlist (spec_references k n), ids Mod (spec_references k n), spec_prune k n)" .
  from "7.IH"(2)[OF p[symmetric] refl refl refl "7.prems"(1,2) b] p show ?case
    by simp
qed simp_all

lemma pass_flags_only_cleared:
  shows "pass_node inP inM n = (inP', inM', pl, ml, res) \<Longrightarrow> (inP' \<longrightarrow> inP) \<and> (inM' \<longrightarrow> inM)"
  and
  "pass_nodes inP inM ms = (inP', inM', pl, ml, res) \<Longrightarrow> (inP' \<longrightarrow> inP) \<and> (inM' \<longrightarrow> inM)"
proof (induction inP inM n and inP inM ms arbitrary: inP' inM' pl ml res and inP' inM' pl ml res
       rule: pass_node_pass_nodes.induct)
  case (1 inP inM name attrs children)
  then show ?case
    by (fastforce split: if_splits option.splits prod.splits)
next
  case (7 inP inM n ns)
  then show ?case
    by (fastforce split: prod.splits)
qed auto

lemma pass_outside:
  shows "pass_node inP inM n = (inP', inM', pl, ml, res) \<Longrightarrow> \<not> inP \<Longrightarrow> \<not> inM \<Longrightarrow>
     \<not> inP' \<and> \<not> inM' \<and> map outside res = [outside n]"
  and
  "pass_nodes inP inM ms = (inP', inM', pl, ml, res) \<Longrightarrow> \<not> inP \<Longrightarrow> \<not> inM \<Longrightarrow>
     \<not> inP' \<and> \<not> inM' \<and> map outside res = map outside ms"
proof (induction inP inM n and inP inM ms arbitrary: inP' inM' pl ml res and inP' inM' pl ml res
       rule: pass_node_pass_nodes.induct)
  case (1 inP inM name attrs children)
  show ?case
  proof (cases "Local name = ''playlists''")
    case True
    obtain a b c d e where p: "pass_nodes True False children = (a, b, c, d, e)"
      by (cases "pass_nodes True False children") auto
    from pass_flags_only_cleared(2)[OF p] p True "1.prems" show ?thesis
      by (auto simp: container_kind_def)
  next
    case np: False
    show ?thesis
    proof (cases "Local name = ''mods''")
      case True
      obtain a b c d e where p: "pass_nodes False True children = (a, b, c, d, e)"
        by (cases "pass_nodes False True children") auto
      from pass_flags_only_cleared(2)[OF p] p True np "1.prems" show ?thesis
        by (auto simp: container_kind_def)
    next
      case nm: False
      from "1.prems" have none: "(if (inP \<or> inM) \<and> Local name = ''path'' then workshop_id attrs else None) = None"
        by simp
      obtain a b c d e where p: "pass_nodes inP inM children = (a, b, c, d, e)"
        by (cases "pass_nodes inP inM children") auto
      from "1.IH"(3)[OF np nm none p "1.prems"(2,3)] p np nm "1.prems" show ?thesis
        by (auto simp: container_kind_def)
    qed
  qed
next
  case (7 inP inM n ns)
  obtain a b c d e where p: "pass_node inP inM n = (a, b, c, d, e)"
    by (cases "pass_node inP inM n") auto
  obtain a2 b2 c2 d2 e2 where q: "pass_nodes a b ns = (a2, b2, c2, d2, e2)"
    by (cases "pass_nodes a b ns") auto
  from "7.IH"(1)[OF p "7.prems"(2,3)] have ab: "\<not> a" "\<not> b" and o1: "map outside e = [outside n]"
    by auto
  from "7.IH"(2)[OF p[symmetric] refl refl refl q ab] p q "7.prems" o1 show ?case
    by auto
qed auto


lemma extract_document:
  assumes acc: "\<And>out t. accepts out t"
  shows "extractWorkshopIDsAndModifyXML accepts (document doc) =
           (case pass_nodes False False doc of
              (inP', inM', pl, ml, res) \<Rightarrow> Inr (pl, ml, concat (map tokens res)))"
proof -
  from acc have a: "accepts = (\<lambda>_ _. True)" by (intro ext) simp
  show ?thesis
    using extract_pass(2)[of False False 0 "[]" "[]" "[]" doc "[]"]
    by (simp add: a extractWorkshopIDsAndModifyXML_def document_def split: prod.splits)
qed

lemma port_attrs_eq:
  "port_attrs s acc found attrs =
     (acc @ map (\<lambda>a. if Local (attr_Name a) = ''port'' then xml_Attr (xml_Name [] ''port'') s else a) attrs,
      found \<or> list_ex (\<lambda>a. Local (attr_Name a) = ''port'') attrs)"
  by (induction attrs arbitrary: acc found) auto

lemma erase_port_port_token: "erase_port (port_token s t) = erase_port t"
proof (cases t)
  case (StartElement name attrs)
  have "filter (\<lambda>attr. Local (attr_Name attr) \<noteq> ''port'')
          (map (\<lambda>a. if Local (attr_Name a) = ''port'' then xml_Attr (xml_Name [] ''port'') s else a) attrs)
        = filter (\<lambda>attr. Local (attr_Name attr) \<noteq> ''port'') attrs"
    by (induction attrs) auto
  with StartElement show ?thesis
    by (simp add: erase_port_def port_token_def port_attrs_eq)
qed (simp_all add: erase_port_def port_token_def)

lemma port_token_other:
  "\<not> (\<exists>name attrs. t = StartElement name attrs \<and> Local name = ''server_data'') \<Longrightarrow> port_token s t = t"
  by (cases t) (auto simp: port_token_def)

lemma updateXmlPort_loop_all:
  "updateXmlPort_loop (\<lambda>_ _. True) s out (map Tok ts) = Inr (out @ map (port_token s) ts)"
  by (induction ts arbitrary: out) simp_all

lemma encode_tokens_all: "encode_tokens (\<lambda>_ _. True) out ts = Inr (out @ ts)"
  by (induction ts arbitrary: out) simp_all

lemma tokens_path_node: "tokens (path_node v) = pathElement v"
  by (simp add: path_node_def pathElement_def)

lemma add_paths_node:
  "addWorkshopPaths_loop (\<lambda>_ _. True) join pids mids dir out (map Tok (tokens n) @ rest) =
   addWorkshopPaths_loop (\<lambda>_ _. True) join pids mids dir
     (out @ tokens (spec_add_paths join pids mids dir n)) rest"
proof (induction n arbitrary: out rest)
  case (Element name attrs children)
  have kids: "addWorkshopPaths_loop (\<lambda>_ _. True) join pids mids dir o1 (map Tok (concat (map tokens cs)) @ r) =
              addWorkshopPaths_loop (\<lambda>_ _. True) join pids mids dir
                (o1 @ concat (map tokens (map (spec_add_paths join pids mids dir) cs))) r"
    if "set cs \<subseteq> set children" for cs o1 r
    using that
  proof (induction cs arbitrary: o1)
    case Nil
    show ?case by simp
  next
    case (Cons c cs)
    then show ?case using Element.IH[of c] by simp
  qed
  have syn: "synthesized join pids mids dir (EndElement name) =
             concat (map tokens (case container_kind name of
                Some Playlist \<Rightarrow> map (\<lambda>itemID. path_node (playlistPath itemID)) pids
              | Some Mod \<Rightarrow> map (\<lambda>itemID. path_node (modPathFinal join dir itemID)) mids
              | None \<Rightarrow> []))"
    by (auto simp: synthesized_def container_kind_def tokens_path_node comp_def)
  show ?case
    by (simp add: kids encode_tokens_all syn synthesized_def[of _ _ _ _ "StartElement name attrs"])
qed (simp_all add: encode_tokens_all synthesized_def)

lemma add_paths_document:
  assumes acc: "\<And>out t. accepts out t"
  shows "addWorkshopPathsToXML accepts join (document doc) pids mids dir =
           Inr (concat (map tokens (map (spec_add_paths join pids mids dir) doc)))"
proof -
  from acc have a: "accepts = (\<lambda>_ _. True)" by (intro ext) simp
  have "addWorkshopPaths_loop (\<lambda>_ _. True) join pids mids dir out (map Tok (concat (map tokens ns)) @ rest) =
        addWorkshopPaths_loop (\<lambda>_ _. True) join pids mids dir
          (out @ concat (map tokens (map (spec_add_paths join pids mids dir) ns))) rest" for ns out rest
    by (induction ns arbitrary: out) (simp_all add: add_paths_node)
  from this[of "[]" doc "[]"] show ?thesis
    by (simp add: a addWorkshopPathsToXML_def document_def)
qed

lemma digits_123: "workshopIDRegex ''123''" "\<not> workshopIDRegex ''abc''"
  by (simp_all add: workshopIDRegex_def is_digit_def)

lemma Itoa_8000: "Itoa 8000 = ''8000''"
  by (simp add: Itoa_def digit_def)

subsection \<open>Extraction\<close>

text \<open>
  An element that is not named \<open>path\<close> is kept and its numeric \<open>path\<close> attribute is not
  recorded, although it lies inside a \<open>playlists\<close> container.
\<close>

theorem extract_item_counterexample:
  "extractWorkshopIDsAndModifyXML (\<lambda>out t. True)
     (document [el ''playlists'' [] [el ''item'' [(''path'', ''123'')] []]])
   = Inr ([], [],
          [StartElement (xml_Name [] ''playlists'') [],
           StartElement (xml_Name [] ''item'') [xml_Attr (xml_Name [] ''path'') ''123''],
           EndElement (xml_Name [] ''item''),
           EndElement (xml_Name [] ''playlists'')])"
  by (simp add: extractWorkshopIDsAndModifyXML_def document_def el_def extract_loop.simps(3))

text \<open>
  C3, as the code has it. For a well-formed document with flat containers and an encoder
  that takes every token, the extraction pass returns: the playlist ids and the mod ids,
  which are the values of the content references in encounter order with duplicates kept,
  split by the kind of their container; and the tokens of the document without the
  referencing elements. A content reference is an element named \<open>path\<close> inside a container
  and outside any dropped element, with a \<open>path\<close> attribute whose value is a nonempty
  string of ASCII digits. Every other element, with all its attributes, is in the output
  unchanged, unless it lies inside a dropped element.
\<close>

theorem extract_refines_spec:
  assumes "\<And>out t. accepts out t"
      and "list_all (flat_containers False) doc"
  shows "extractWorkshopIDsAndModifyXML accepts (document doc) =
           Inr (ids Playlist (concat (map (spec_references None) doc)),
                ids Mod (concat (map (spec_references None) doc)),
                concat (map tokens (concat (map (spec_prune None) doc))))"
  using extract_document[of accepts doc, OF assms(1)] pass_flat(2)[of False None False doc] assms(2)
  by simp

theorem extract_refines_spec_witness:
  "list_all (flat_containers False) example_document
   \<and> extractWorkshopIDsAndModifyXML (\<lambda>out t. True) (document example_document) =
       Inr ([''123''], [],
            [StartElement (xml_Name [] ''server_data'') [xml_Attr (xml_Name [] ''port'') ''0''],
             StartElement (xml_Name [] ''playlists'') [],
             StartElement (xml_Name [] ''path'') [xml_Attr (xml_Name [] ''path'') ''abc''],
             EndElement (xml_Name [] ''path''),
             EndElement (xml_Name [] ''playlists''),
             EndElement (xml_Name [] ''server_data'')])"
proof -
  have fl: "list_all (flat_containers False) example_document"
    by (simp add: example_document_def el_def container_kind_def)
  from extract_refines_spec[of "\<lambda>out t. True" example_document, OF _ fl] fl show ?thesis
    by (simp add: example_document_def el_def container_kind_def ids_def digits_123)
qed

subsection \<open>What the passes leave alone\<close>

text \<open>
  The port rewrite changes the \<open>port\<close> attribute of every element named \<open>server_data\<close>,
  not only of the root element.
\<close>

theorem updateXmlPort_nested_counterexample:
  "updateXmlPort (\<lambda>out t. True)
     (document [el ''server_data'' [(''port'', ''0'')] [el ''server_data'' [(''port'', ''5'')] []]]) 8000
   = Inr [StartElement (xml_Name [] ''server_data'') [xml_Attr (xml_Name [] ''port'') ''8000''],
          StartElement (xml_Name [] ''server_data'') [xml_Attr (xml_Name [] ''port'') ''8000''],
          EndElement (xml_Name [] ''server_data''),
          EndElement (xml_Name [] ''server_data'')]"
  by (simp add: updateXmlPort_def document_def el_def port_token_def Itoa_8000)

text \<open>
  C7, as the code has it, on the tokens handed to the encoder. With an encoder that takes
  every token, the port rewrite of any token sequence returns a sequence that differs from
  the input at most in the \<open>port\<close> attributes of start tags named \<open>server_data\<close>: all other
  tokens are the same and in the same places, and those start tags keep their other
  attributes in order. The extraction pass of a well-formed document returns the tokens of
  a document that agrees with the input outside the \<open>playlists\<close> and \<open>mods\<close> containers.
\<close>

theorem passes_keep_the_rest:
  assumes "\<And>out t. accepts out t"
  shows "(\<exists>out. updateXmlPort accepts (map Tok ts) newPort = Inr out
            \<and> map erase_port out = map erase_port ts
            \<and> (\<forall>i < length ts.
                  \<not> (\<exists>name attrs. ts ! i = StartElement name attrs \<and> Local name = ''server_data'')
                  \<longrightarrow> out ! i = ts ! i))
       \<and> (\<exists>pl ml res. extractWorkshopIDsAndModifyXML accepts (document doc)
                          = Inr (pl, ml, concat (map tokens res))
            \<and> map outside res = map outside doc)"
proof (intro conjI)
  from assms have a: "accepts = (\<lambda>_ _. True)" by (intro ext) simp
  have "updateXmlPort accepts (map Tok ts) newPort = Inr (map (port_token (Itoa newPort)) ts)"
    by (simp add: a updateXmlPort_def updateXmlPort_loop_all)
  moreover have "map erase_port (map (port_token (Itoa newPort)) ts) = map erase_port ts"
    by (simp add: erase_port_port_token)
  moreover have "\<forall>i < length ts.
        \<not> (\<exists>name attrs. ts ! i = StartElement name attrs \<and> Local name = ''server_data'')
        \<longrightarrow> map (port_token (Itoa newPort)) ts ! i = ts ! i"
    by (simp add: port_token_other)
  ultimately show "\<exists>out. updateXmlPort accepts (map Tok ts) newPort = Inr out
            \<and> map erase_port out = map erase_port ts
            \<and> (\<forall>i < length ts.
                  \<not> (\<exists>name attrs. ts ! i = StartElement name attrs \<and> Local name = ''server_data'')
                  \<longrightarrow> out ! i = ts ! i)"
    by blast
next
  obtain a b pl ml res where p: "pass_nodes False False doc = (a, b, pl, ml, res)"
    by (cases "pass_nodes False False doc") auto
  from pass_outside(2)[OF p] have "map outside res = map outside doc" by simp
  moreover from extract_document[of accepts doc, OF assms] p
  have "extractWorkshopIDsAndModifyXML accepts (document doc) = Inr (pl, ml, concat (map tokens res))"
    by simp
  ultimately show "\<exists>pl ml res. extractWorkshopIDsAndModifyXML accepts (document doc)
                          = Inr (pl, ml, concat (map tokens res))
            \<and> map outside res = map outside doc"
    by blast
qed

theorem passes_keep_the_rest_witness:
  "updateXmlPort (\<lambda>out t. True) (document example_document) 8000 =
     Inr [StartElement (xml_Name [] ''server_data'') [xml_Attr (xml_Name [] ''port'') ''8000''],
          StartElement (xml_Name [] ''playlists'') [],
          StartElement (xml_Name [] ''path'') [xml_Attr (xml_Name [] ''path'') ''123''],
          EndElement (xml_Name [] ''path''),
          StartElement (xml_Name [] ''path'') [xml_Attr (xml_Name [] ''path'') ''abc''],
          EndElement (xml_Name [] ''path''),
          EndElement (xml_Name [] ''playlists''),
          EndElement (xml_Name [] ''server_data'')]
   \<and> (\<exists>pl ml res. extractWorkshopIDsAndModifyXML (\<lambda>out t. True) (document example_document)
                          = Inr (pl, ml, concat (map tokens res))
            \<and> map outside res = [el ''server_data'' [(''port'', ''0'')] [el ''playlists'' [] []]])"
proof -
  have 1: "updateXmlPort (\<lambda>out t. True) (document example_document) 8000 =
     Inr [StartElement (xml_Name [] ''server_data'') [xml_Attr (xml_Name [] ''port'') ''8000''],
          StartElement (xml_Name [] ''playlists'') [],
          StartElement (xml_Name [] ''path'') [xml_Attr (xml_Name [] ''path'') ''123''],
          EndElement (xml_Name [] ''path''),
          StartElement (xml_Name [] ''path'') [xml_Attr (xml_Name [] ''path'') ''abc''],
          EndElement (xml_Name [] ''path''),
          EndElement (xml_Name [] ''playlists''),
          EndElement (xml_Name [] ''server_data'')]"
    by (simp add: updateXmlPort_def document_def example_document_def el_def port_token_def Itoa_8000)
  have 2: "map outside example_document = [el ''server_data'' [(''port'', ''0'')] [el ''playlists'' [] []]]"
    by (simp add: example_document_def el_def container_kind_def)
  from passes_keep_the_rest[of "\<lambda>out t. True" "[]" 0 example_document] 1 2 show ?thesis
    by simp
qed

subsection \<open>Reinsertion\<close>

text \<open>
  The path value of a synthesized playlist element does not depend on the configured
  install directory: here the directory joined with the id is another string.
\<close>

theorem addWorkshopPaths_counterexample:
  "addWorkshopPathsToXML (\<lambda>out t. True) (Join example_files) (document [el ''playlists'' [] []])
     [''123''] [] ''C:/swsc/config/a''
   = Inr [StartElement (xml_Name [] ''playlists'') [],
          StartElement (xml_Name [] ''path'') [xml_Attr (xml_Name [] ''path'') ''/rom/data/workshop_missions/123''],
          EndElement (xml_Name [] ''path''),
          EndElement (xml_Name [] ''playlists'')]
   \<and> Join example_files [WorkshopPlaylistsInstallDir example_config, ''123''] = ''C:/sw/playlists/123''"
  by (simp add: addWorkshopPathsToXML_def document_def el_def synthesized_def pathElement_def
        playlistPath_def example_files_def example_config_def)

text \<open>
  C4, as the code has it. For a well-formed document and an encoder that takes every token,
  reinsertion returns the tokens of the document in which every \<open>playlists\<close> element has,
  after its last child and so immediately before its closing tag, one new leaf \<open>path\<close>
  element per successful playlist id, and every \<open>mods\<close> element one per successful mod id,
  in the order of the lists. The path value of a playlist leaf is
  \<open>/rom/data/workshop_missions/\<close> followed by the id; that of a mod leaf is the join of the
  absolute configuration directory, \<open>rom\<close>, \<open>data\<close>, \<open>workshop_mods\<close> and the id with every
  slash replaced by a backslash.
\<close>

theorem addWorkshopPaths_refines_spec:
  assumes "\<And>out t. accepts out t"
  shows "addWorkshopPathsToXML accepts join (document doc) pids mids dir =
           Inr (concat (map tokens (map (spec_add_paths join pids mids dir) doc)))"
  using assms by (rule add_paths_document)

theorem addWorkshopPaths_refines_spec_witness:
  "addWorkshopPathsToXML (\<lambda>out t. True) (Join example_files)
     (document [el ''mods'' [] [el ''path'' [(''path'', ''abc'')] []]]) [] [''77''] ''C:/swsc/config/a''
   = Inr [StartElement (xml_Name [] ''mods'') [],
          StartElement (xml_Name [] ''path'') [xml_Attr (xml_Name [] ''path'') ''abc''],
          EndElement (xml_Name [] ''path''),
          StartElement (xml_Name [] ''path'')
            [xml_Attr (xml_Name [] ''path'')
               [CHR ''C'', CHR '':'', CHR 0x5C, CHR ''s'', CHR ''w'', CHR ''s'', CHR ''c'', CHR 0x5C,
                CHR ''c'', CHR ''o'', CHR ''n'', CHR ''f'', CHR ''i'', CHR ''g'', CHR 0x5C, CHR ''a'',
                CHR 0x5C, CHR ''r'', CHR ''o'', CHR ''m'', CHR 0x5C, CHR ''d'', CHR ''a'', CHR ''t'',
                CHR ''a'', CHR 0x5C, CHR ''w'', CHR ''o'', CHR ''r'', CHR ''k'', CHR ''s'', CHR ''h'',
                CHR ''o'', CHR ''p'', CHR ''_'', CHR ''m'', CHR ''o'', CHR ''d'', CHR ''s'', CHR 0x5C,
                CHR ''7'', CHR ''7'']],
          EndElement (xml_Name [] ''path''),
          EndElement (xml_Name [] ''mods'')]"
  using addWorkshopPaths_refines_spec[of "\<lambda>out t. True" "Join example_files"
          "[el ''mods'' [] [el ''path'' [(''path'', ''abc'')] []]]" "[]" "[''77'']" "''C:/swsc/config/a''"]
  by (simp add: el_def container_kind_def path_node_def modPathFinal_def ReplaceAll_slash_def
        example_files_def)

section \<open>The content fetcher\<close>

lemma all_items_eq:
  "all_items pl ml itemID =
     (if itemID \<in> set ml then Some ''mod'' else if itemID \<in> set pl then Some ''playlist'' else None)"
proof -
  have a: "foldl (\<lambda>m i. m(i \<mapsto> v)) m0 xs k = (if k \<in> set xs then Some v else m0 k)" for v xs k and m0 :: "string \<rightharpoonup> string"
    by (induction xs arbitrary: m0) auto
  show ?thesis by (simp add: all_items_def a)
qed

lemma map_set_keys: "fst ` set (map_set m k v) = insert k (fst ` set m)"
  by (auto simp: map_set_def image_iff)

lemma distinct_keys_filter: "distinct (map fst m) \<Longrightarrow> distinct (map fst (filter P m))"
  by (induction m) auto

lemma map_set_wf: "wf_map m \<Longrightarrow> wf_map (map_set m k True)"
  unfolding wf_map_def map_set_def
  by (auto simp: distinct_keys_filter)


lemma scan_line_wf: "wf_map m \<Longrightarrow> wf_map (scan_line os m line)"
  by (simp add: scan_line_def map_set_wf split: option.splits)

lemma scan_line_keys:
  "fst ` set (scan_line os m line) =
     fst ` set m \<union> {i. FindStringSubmatch os line = Some i}"
  by (auto simp: scan_line_def map_set_keys map_has_def split: option.splits)

lemma scan_lines_wf: "wf_map m \<Longrightarrow> wf_map (foldl (scan_line os) m lines)"
  by (induction lines arbitrary: m) (simp_all add: scan_line_wf)

lemma scan_lines_keys:
  "fst ` set (foldl (scan_line os) m lines) = fst ` set m \<union> {i. remotely_fetched os lines i}"
proof (induction lines arbitrary: m)
  case Nil
  show ?case by (simp add: remotely_fetched_def)
next
  case (Cons l ls)
  show ?case
    by (simp add: Cons.IH scan_line_keys remotely_fetched_def) blast
qed

lemma materialize_step:
  "materialize_loop os allItems base pd md final ((i, d) # rest) =
     materialize_loop os allItems base pd md
       (if d \<and> item_ok os allItems base pd md i then map_set final i True else final) rest"
  by (cases "allItems i") (auto simp: item_ok_def Let_def)

lemma materialize_wf:
  "wf_map final \<Longrightarrow> wf_map (materialize_loop os allItems base pd md final m)"
proof (induction m arbitrary: final)
  case Nil
  then show ?case by simp
next
  case (Cons e m)
  obtain i d where e: "e = (i, d)" by (cases e)
  from Cons show ?case
    unfolding e materialize_step by (simp add: map_set_wf)
qed

lemma materialize_keys:
  "fst ` set (materialize_loop os allItems base pd md final m) =
     fst ` set final \<union> {i. (i, True) \<in> set m \<and> item_ok os allItems base pd md i}"
proof (induction m arbitrary: final)
  case Nil
  then show ?case by simp
next
  case (Cons e m)
  obtain i d where e: "e = (i, d)" by (cases e)
  show ?case
    unfolding e materialize_step by (auto simp: Cons.IH map_set_keys)
qed

lemma collect_eq:
  "collect_loop allItems sp sm m =
     (sp @ map fst (filter (\<lambda>(i, v). v \<and> allItems i = Some ''playlist'') m),
      sm @ map fst (filter (\<lambda>(i, v). v \<and> allItems i = Some ''mod'') m))"
proof (induction m arbitrary: sp sm)
  case Nil
  show ?case by simp
next
  case (Cons e m)
  obtain i v where e: "e = (i, v)" by (cases e)
  show ?case
  proof (cases v)
    case False
    then show ?thesis by (simp add: e Cons.IH)
  next
    case True
    then show ?thesis
      by (cases "allItems i") (simp_all add: e Cons.IH Let_def)
  qed
qed

lemma wf_map_mset: "mset m' = mset m \<Longrightarrow> wf_map m \<Longrightarrow> wf_map m'"
proof -
  assume eq: "mset m' = mset m" and wf: "wf_map m"
  from eq have "mset (map fst m') = mset (map fst m)" by (metis mset_map)
  then have "distinct (map fst m') = distinct (map fst m)" by (rule mset_eq_imp_distinct_iff)
  moreover from eq have "set m' = set m" by (rule mset_eq_setD)
  ultimately show ?thesis using wf by (simp add: wf_map_def)
qed

lemma wf_map_True: "wf_map m \<Longrightarrow> (i, v) \<in> set m \<Longrightarrow> v"
  by (auto simp: wf_map_def)

lemma wf_map_mem: "wf_map m \<Longrightarrow> (i, True) \<in> set m \<longleftrightarrow> i \<in> fst ` set m"
  by (force simp: wf_map_def)

lemma distinct_keys_map_filter: "distinct (map fst m) \<Longrightarrow> distinct (map fst (filter P m))"
  by (induction m) auto

lemma item_ok_materialized:
  "item_ok os (all_items pl ml) (Join os [Dir os path, ''steamapps'', ''workshop'', ''content'', app]) pd md i
     \<longleftrightarrow> (i \<in> set ml \<and> materialized os app path pd md Mod i)
        \<or> (i \<notin> set ml \<and> i \<in> set pl \<and> materialized os app path pd md Playlist i)"
  by (auto simp: item_ok_def all_items_eq materialized_def copy_item_def Let_def)

text \<open>
  C5. When the tool has run and its output was read, the fetcher returns two lists for
  every batch, whatever the exit status of the tool and whatever order the maps are ranged
  in. No id occurs twice in a list. The playlist list holds exactly the requested playlist
  ids (not also requested as mods) that were remotely fetched and materialized without
  error, and the mod list exactly the requested mod ids with these two properties. So a
  missing source, a removal error or a copy error removes only the id it concerns.
\<close>

theorem DownloadWorkshopItems_success_lists:
  assumes perm: "\<And>m. mset (rangeOrder os m) = mset m"
  shows "\<exists>sp sm.
           DownloadWorkshopItems os (Exited lines False waitErr) pl ml pd md app path = Inr (sp, sm)
         \<and> distinct sp \<and> distinct sm
         \<and> set sp = {i \<in> set pl - set ml. remotely_fetched os lines i \<and> materialized os app path pd md Playlist i}
         \<and> set sm = {i \<in> set ml. remotely_fetched os lines i \<and> materialized os app path pd md Mod i}"
proof (cases "pl = [] \<and> ml = []")
  case True
  then show ?thesis by (simp add: DownloadWorkshopItems_def)
next
  case False
  define base where "base = Join os [Dir os path, ''steamapps'', ''workshop'', ''content'', app]"
  define dl where "dl = foldl (scan_line os) [] lines"
  define fin where "fin = materialize_loop os (all_items pl ml) base pd md [] (rangeOrder os dl)"
  define sp where "sp = map fst (filter (\<lambda>(i, v). v \<and> all_items pl ml i = Some ''playlist'') (rangeOrder os fin))"
  define sm where "sm = map fst (filter (\<lambda>(i, v). v \<and> all_items pl ml i = Some ''mod'') (rangeOrder os fin))"
  have wf_empty: "wf_map []" by (simp add: wf_map_def)
  have dl_wf: "wf_map dl" unfolding dl_def by (rule scan_lines_wf[OF wf_empty])
  have dl_keys: "fst ` set dl = {i. remotely_fetched os lines i}"
    unfolding dl_def by (simp add: scan_lines_keys)
  have rdl_wf: "wf_map (rangeOrder os dl)" by (rule wf_map_mset[OF perm dl_wf])
  have rdl_set: "set (rangeOrder os dl) = set dl" by (rule mset_eq_setD[OF perm])
  have fin_wf: "wf_map fin" unfolding fin_def by (rule materialize_wf[OF wf_empty])
  have fin_keys: "fst ` set fin = {i. remotely_fetched os lines i \<and> item_ok os (all_items pl ml) base pd md i}"
    unfolding fin_def using dl_keys by (simp add: materialize_keys rdl_set wf_map_mem[OF dl_wf])
  have rfin_wf: "wf_map (rangeOrder os fin)" by (rule wf_map_mset[OF perm fin_wf])
  have rfin_set: "set (rangeOrder os fin) = set fin" by (rule mset_eq_setD[OF perm])
  have res: "DownloadWorkshopItems os (Exited lines False waitErr) pl ml pd md app path = Inr (sp, sm)"
    using False by (auto simp: DownloadWorkshopItems_def Let_def collect_eq sp_def sm_def fin_def dl_def base_def)
  have dsp: "distinct sp" unfolding sp_def
    using rfin_wf by (simp add: wf_map_def distinct_keys_map_filter)
  have dsm: "distinct sm" unfolding sm_def
    using rfin_wf by (simp add: wf_map_def distinct_keys_map_filter)
  have mem: "(i, v) \<in> set fin \<longleftrightarrow> v \<and> i \<in> fst ` set fin" for i v
  proof
    assume a: "(i, v) \<in> set fin"
    from wf_map_True[OF fin_wf a] have v .
    moreover from a have "i \<in> fst ` set fin" by force
    ultimately show "v \<and> i \<in> fst ` set fin" by simp
  next
    assume "v \<and> i \<in> fst ` set fin"
    then show "(i, v) \<in> set fin" using wf_map_mem[OF fin_wf, of i] by simp
  qed
  have ssp: "set sp = {i. i \<in> fst ` set fin \<and> all_items pl ml i = Some ''playlist''}"
    unfolding sp_def by (auto simp: rfin_set mem image_iff) 
  have ssm: "set sm = {i. i \<in> fst ` set fin \<and> all_items pl ml i = Some ''mod''}"
    unfolding sm_def by (auto simp: rfin_set mem image_iff)
  have set_sp: "set sp = {i \<in> set pl - set ml. remotely_fetched os lines i \<and> materialized os app path pd md Playlist i}"
    unfolding ssp fin_keys base_def item_ok_materialized
    by (auto simp: all_items_eq split: if_splits)
  have set_sm: "set sm = {i \<in> set ml. remotely_fetched os lines i \<and> materialized os app path pd md Mod i}"
    unfolding ssm fin_keys base_def item_ok_materialized
    by (auto simp: all_items_eq split: if_splits)
  from res dsp dsm set_sp set_sm show ?thesis by blast
qed

lemma example_materialized:
  "materialized example_steam ''573090'' ''C:/steamcmd/steamcmd.exe'' ''C:/sw/playlists'' ''C:/sw/mods'' Playlist ''1''"
  "\<not> materialized example_steam ''573090'' ''C:/steamcmd/steamcmd.exe'' ''C:/sw/playlists'' ''C:/sw/mods'' Playlist ''2''"
  "materialized example_steam ''573090'' ''C:/steamcmd/steamcmd.exe'' ''C:/sw/playlists'' ''C:/sw/mods'' Mod ''3''"
  by (simp_all add: materialized_def example_steam_def example_files_def)

lemma example_fetched:
  "remotely_fetched example_steam example_lines i \<longleftrightarrow> i \<in> {''1'', ''2'', ''3''}"
  by (auto simp: remotely_fetched_def example_steam_def example_lines_def split: if_splits)


theorem DownloadWorkshopItems_success_lists_witness:
  "(\<forall>m. mset (rangeOrder example_steam m) = mset m)
   \<and> (\<exists>sp sm. DownloadWorkshopItems example_steam (Exited example_lines False True)
                  [''1'', ''2''] [''3''] ''C:/sw/playlists'' ''C:/sw/mods'' ''573090''
                  ''C:/steamcmd/steamcmd.exe'' = Inr (sp, sm)
               \<and> set sp = {''1''} \<and> set sm = {''3''})"
proof -
  have perm: "mset (rangeOrder example_steam m) = mset m" for m
    by (simp add: example_steam_def)
  have a: "{i \<in> set [''1'', ''2''] - set [''3'']. remotely_fetched example_steam example_lines i \<and>
             materialized example_steam ''573090'' ''C:/steamcmd/steamcmd.exe'' ''C:/sw/playlists'' ''C:/sw/mods'' Playlist i}
           = {''1''}"
    using example_materialized by (auto simp: example_fetched)
  have b: "{i \<in> set [''3'']. remotely_fetched example_steam example_lines i \<and>
             materialized example_steam ''573090'' ''C:/steamcmd/steamcmd.exe'' ''C:/sw/playlists'' ''C:/sw/mods'' Mod i}
           = {''3''}"
    using example_materialized by (auto simp: example_fetched)
  from DownloadWorkshopItems_success_lists[of example_steam example_lines True "[''1'', ''2'']" "[''3'']"
         "''C:/sw/playlists''" "''C:/sw/mods''" "''573090''" "''C:/steamcmd/steamcmd.exe''", OF perm]
  obtain sp sm where
    r: "DownloadWorkshopItems example_steam (Exited example_lines False True)
          [''1'', ''2''] [''3''] ''C:/sw/playlists'' ''C:/sw/mods'' ''573090''
          ''C:/steamcmd/steamcmd.exe'' = Inr (sp, sm)"
    and sp: "set sp = {i \<in> set [''1'', ''2''] - set [''3'']. remotely_fetched example_steam example_lines i \<and>
             materialized example_steam ''573090'' ''C:/steamcmd/steamcmd.exe'' ''C:/sw/playlists'' ''C:/sw/mods'' Playlist i}"
    and sm: "set sm = {i \<in> set [''3'']. remotely_fetched example_steam example_lines i \<and>
             materialized example_steam ''573090'' ''C:/steamcmd/steamcmd.exe'' ''C:/sw/playlists'' ''C:/sw/mods'' Mod i}"
    by blast
  have "set sp = {''1''}" using sp a by (rule trans)
  moreover have "set sm = {''3''}" using sm b by (rule trans)
  ultimately show ?thesis using r perm by (intro conjI allI exI[of _ sp] exI[of _ sm]) 
qed

section \<open>Failed items of a start\<close>

lemma calculateFailedIDs_eq:
  "calculateFailedIDs rp rm sp sm = filter (\<lambda>i. i \<notin> set sp \<union> set sm) (rp @ rm)"
proof -
  define successMap where
    "successMap = foldl (\<lambda>m itemID. m(itemID \<mapsto> True))
                    (foldl (\<lambda>m itemID. m(itemID \<mapsto> True)) (Map.empty :: string \<rightharpoonup> bool) sp) sm"
  define missing where
    "missing = (\<lambda>failedIDs itemID.
                  if \<not> (case successMap itemID of None \<Rightarrow> False | Some b \<Rightarrow> b)
                  then failedIDs @ [itemID] else failedIDs)"
  have a: "foldl (\<lambda>m i. m(i \<mapsto> True)) m0 xs k = (if k \<in> set xs then Some True else m0 k)"
    for xs k and m0 :: "string \<rightharpoonup> bool"
    by (induction xs arbitrary: m0) auto
  have sm: "(case successMap i of None \<Rightarrow> False | Some b \<Rightarrow> b) \<longleftrightarrow> i \<in> set sp \<union> set sm" for i
    by (simp add: successMap_def a)
  have m: "missing = (\<lambda>acc i. if i \<notin> set sp \<union> set sm then acc @ [i] else acc)"
    unfolding missing_def sm by simp
  have b: "foldl (\<lambda>acc i. if P i then acc @ [i] else acc) acc xs = acc @ filter P xs"
    for P :: "string \<Rightarrow> bool" and acc xs
    by (induction xs arbitrary: acc) auto
  have "calculateFailedIDs rp rm sp sm = foldl missing (foldl missing [] rp) rm"
    by (simp add: calculateFailedIDs_def Let_def missing_def successMap_def)
  also have "\<dots> = filter (\<lambda>i. i \<notin> set sp \<union> set sm) rp @ filter (\<lambda>i. i \<notin> set sp \<union> set sm) rm"
    unfolding m b by simp
  finally show ?thesis by simp
qed


lemma encode_tokens_Inr: "encode_tokens accepts out ts = Inr out' \<Longrightarrow> out' = out @ ts"
proof (induction ts arbitrary: out)
  case Nil
  then show ?case by simp
next
  case (Cons a ts)
  from Cons.prems have "encode_tokens accepts (out @ [a]) ts = Inr out'"
    by (auto split: if_splits)
  from Cons.IH[OF this] show ?case by simp
qed

lemma synthesized_subset:
  "set (synthesized join sp sm dir t) \<subseteq> synthesized_elements join dir sp sm"
  by (cases t) (auto simp: synthesized_def synthesized_elements_def)

lemma addWorkshopPaths_loop_tokens:
  "addWorkshopPaths_loop accepts join sp sm dir out reads = Inr final \<Longrightarrow>
     set final \<subseteq> set out \<union> {t. Tok t \<in> set reads} \<union> synthesized_elements join dir sp sm"
proof (induction reads arbitrary: out)
  case Nil
  then show ?case by auto
next
  case (Cons r reads)
  show ?case
  proof (cases r)
    case ReadError
    with Cons.prems show ?thesis by simp
  next
    case (Tok t)
    with Cons.prems obtain out' where
      e: "encode_tokens accepts out (synthesized join sp sm dir t @ [t]) = Inr out'"
      and l: "addWorkshopPaths_loop accepts join sp sm dir out' reads = Inr final"
      by (auto split: sum.splits)
    from encode_tokens_Inr[OF e] have o: "out' = out @ synthesized join sp sm dir t @ [t]" .
    from Cons.IH[OF l] synthesized_subset[of join sp sm dir t] show ?thesis
      unfolding o Tok by auto
  qed
qed

lemma launch_stage_success:
  assumes "launch_stage w cfg st requestID name assignedPort failedItemIDs xmlToSave = (st', effects)"
      and "Send m \<in> set effects" "Payload m = Response r" "Success r"
  shows "FailedItemIDs r = failedItemIDs \<and> AssignedPort r = assignedPort
         \<and> SaveConfigFile name xmlToSave \<in> set effects"
  using assms
  by (auto simp: launch_stage_def Let_def stopExistingProcess_def sendResponse_def
        sendStartSuccessResponse_def split: if_splits prod.splits option.splits bool.splits)

lemma workshop_stage_effects:
  assumes "workshop_stage w cfg requestID name pl ml xml = (effects, res)"
      and "Send m \<in> set effects" "Payload m = Response r"
  shows "\<not> Success r"
  using assms
  by (auto simp: workshop_stage_def Let_def sendResponse_def sendStatusUpdate_def
        split: if_splits option.splits sum.splits)


lemma workshop_stage_result:
  assumes "workshop_stage w cfg requestID name pl ml xml = (effects, Some (failedItemIDs, xmlToSave))"
  shows "failedItemIDs =
           calculateFailedIDs pl ml
             (fst (case DownloadWorkshopItems w (steamcmd w) pl ml (WorkshopPlaylistsInstallDir cfg)
                          (WorkshopModsInstallDir cfg) (GameAppID cfg) (SteamCmdPath cfg)
                   of Inl e \<Rightarrow> ([], []) | Inr r \<Rightarrow> r))
             (snd (case DownloadWorkshopItems w (steamcmd w) pl ml (WorkshopPlaylistsInstallDir cfg)
                          (WorkshopModsInstallDir cfg) (GameAppID cfg) (SteamCmdPath cfg)
                   of Inl e \<Rightarrow> ([], []) | Inr r \<Rightarrow> r))
         \<and> ((pl = [] \<and> ml = [] \<and> xmlToSave = xml) \<or>
            (\<exists>dir final.
               addWorkshopPathsToXML (Accepts w) (Join w) (Decode w xml)
                 (fst (case DownloadWorkshopItems w (steamcmd w) pl ml (WorkshopPlaylistsInstallDir cfg)
                          (WorkshopModsInstallDir cfg) (GameAppID cfg) (SteamCmdPath cfg)
                       of Inl e \<Rightarrow> ([], []) | Inr r \<Rightarrow> r))
                 (snd (case DownloadWorkshopItems w (steamcmd w) pl ml (WorkshopPlaylistsInstallDir cfg)
                          (WorkshopModsInstallDir cfg) (GameAppID cfg) (SteamCmdPath cfg)
                       of Inl e \<Rightarrow> ([], []) | Inr r \<Rightarrow> r)) dir = Inr final
               \<and> xmlToSave = Render w final))"
proof (cases "pl = [] \<and> ml = []")
  case True
  with assms show ?thesis
    by (auto simp: workshop_stage_def calculateFailedIDs_eq DownloadWorkshopItems_def)
next
  case False
  then have ne: "length pl > 0 \<or> length ml > 0" by auto
  show ?thesis
  proof (cases "DownloadWorkshopItems w (steamcmd w) pl ml (WorkshopPlaylistsInstallDir cfg)
                  (WorkshopModsInstallDir cfg) (GameAppID cfg) (SteamCmdPath cfg)")
    case (Inl e)
    with assms ne show ?thesis
      by (auto simp: workshop_stage_def Let_def split: option.splits sum.splits)
  next
    case (Inr r)
    obtain sp sm where r: "r = (sp, sm)" by (cases r)
    from assms ne Inr r show ?thesis
      by (auto simp: workshop_stage_def Let_def split: option.splits sum.splits)
  qed
qed

text \<open>
  C8. Whenever the start handler sends a success response: the port was found, the port
  rewrite and the extraction succeeded, and the list of failed ids in the response is, in
  order, the list of the extracted playlist ids followed by the extracted mod ids without
  those that are in one of the success lists of the fetch (both empty when the fetch
  failed). The document saved is either the extracted one, when no id was extracted, or the
  result of reinsertion with exactly these success lists, and every token of that result is
  a token of the document read or a token of a \<open>path\<close> element for an id in the success
  lists.
\<close>

theorem start_reports_failed_items:
  assumes run: "handleStartServerProcess w cfg st requestID (Some data) = (st', effects)"
      and sent: "Send m \<in> set effects" "Payload m = Response r" "Success r"
  shows "\<exists>assignedPort xmlWithPort playlistIDs modIDs xmlWithIdsRemoved sp sm.
           findAvailablePort (usedPorts st) (MinPort cfg) (MaxPort cfg) = Inr assignedPort
         \<and> updateXmlPort (Accepts w) (Decode w (StartServerPayload.Config data)) assignedPort = Inr xmlWithPort
         \<and> extractWorkshopIDsAndModifyXML (Accepts w) (Decode w (Render w xmlWithPort))
               = Inr (playlistIDs, modIDs, xmlWithIdsRemoved)
         \<and> (sp, sm) = (case DownloadWorkshopItems w (steamcmd w) playlistIDs modIDs
                                (WorkshopPlaylistsInstallDir cfg) (WorkshopModsInstallDir cfg)
                                (GameAppID cfg) (SteamCmdPath cfg)
                         of Inl e \<Rightarrow> ([], []) | Inr found \<Rightarrow> found)
         \<and> FailedItemIDs r = filter (\<lambda>itemID. itemID \<notin> set sp \<union> set sm) (playlistIDs @ modIDs)
         \<and> ((playlistIDs = [] \<and> modIDs = []
               \<and> SaveConfigFile (StartServerPayload.Name data) (Render w xmlWithIdsRemoved) \<in> set effects)
            \<or> (\<exists>dir final.
                  addWorkshopPathsToXML (Accepts w) (Join w) (Decode w (Render w xmlWithIdsRemoved))
                    sp sm dir = Inr final
                \<and> SaveConfigFile (StartServerPayload.Name data) (Render w final) \<in> set effects
                \<and> set final \<subseteq> {t. Tok t \<in> set (Decode w (Render w xmlWithIdsRemoved))}
                                \<union> synthesized_elements (Join w) dir sp sm))"
proof -
  from run sent obtain assignedPort where
    p: "findAvailablePort (usedPorts st) (MinPort cfg) (MaxPort cfg) = Inr assignedPort"
    by (cases "findAvailablePort (usedPorts st) (MinPort cfg) (MaxPort cfg)")
       (auto simp: handleStartServerProcess_def sendResponse_def)
  from run sent p obtain xmlWithPort where
    u: "updateXmlPort (Accepts w) (Decode w (StartServerPayload.Config data)) assignedPort = Inr xmlWithPort"
    by (cases "updateXmlPort (Accepts w) (Decode w (StartServerPayload.Config data)) assignedPort")
       (auto simp: handleStartServerProcess_def sendResponse_def)
  from run sent p u obtain pl ml xmlWithIdsRemoved where
    x: "extractWorkshopIDsAndModifyXML (Accepts w) (Decode w (Render w xmlWithPort))
          = Inr (pl, ml, xmlWithIdsRemoved)"
    by (cases "extractWorkshopIDsAndModifyXML (Accepts w) (Decode w (Render w xmlWithPort))")
       (auto simp: handleStartServerProcess_def sendResponse_def)
  obtain e1 res where ws: "workshop_stage w cfg requestID (StartServerPayload.Name data) pl ml
                             (Render w xmlWithIdsRemoved) = (e1, res)"
    by (cases "workshop_stage w cfg requestID (StartServerPayload.Name data) pl ml (Render w xmlWithIdsRemoved)")
  have no1: "\<not> Success r'" if "Send m' \<in> set e1" "Payload m' = Response r'" for m' r'
    using workshop_stage_effects[OF ws that] .
  from run sent p u x ws no1 obtain failedItemIDs xmlToSave where
    res: "res = Some (failedItemIDs, xmlToSave)"
    by (cases res) (auto simp: handleStartServerProcess_def)
  obtain st2 e2 where ls: "launch_stage w cfg st requestID (StartServerPayload.Name data) assignedPort
                             failedItemIDs xmlToSave = (st2, e2)"
    by (cases "launch_stage w cfg st requestID (StartServerPayload.Name data) assignedPort failedItemIDs xmlToSave")
  from run p u x ws res ls have eff: "effects = e1 @ e2"
    by (simp add: handleStartServerProcess_def)
  with sent no1 have in2: "Send m \<in> set e2" by auto
  from launch_stage_success[OF ls in2 sent(2,3)]
  have f: "FailedItemIDs r = failedItemIDs"
    and sv: "SaveConfigFile (StartServerPayload.Name data) xmlToSave \<in> set e2" by simp_all
  define found where "found = (case DownloadWorkshopItems w (steamcmd w) pl ml
                                (WorkshopPlaylistsInstallDir cfg) (WorkshopModsInstallDir cfg)
                                (GameAppID cfg) (SteamCmdPath cfg)
                         of Inl e \<Rightarrow> ([], []) | Inr found \<Rightarrow> found)"
  obtain sp sm where l: "found = (sp, sm)" by (cases found)
  from workshop_stage_result[OF ws[unfolded res]]
  have fl: "failedItemIDs = calculateFailedIDs pl ml sp sm"
    and alt: "(pl = [] \<and> ml = [] \<and> xmlToSave = Render w xmlWithIdsRemoved) \<or>
              (\<exists>dir final. addWorkshopPathsToXML (Accepts w) (Join w) (Decode w (Render w xmlWithIdsRemoved))
                 sp sm dir = Inr final \<and> xmlToSave = Render w final)"
    unfolding found_def[symmetric] l by simp_all
  have part2: "(pl = [] \<and> ml = []
               \<and> SaveConfigFile (StartServerPayload.Name data) (Render w xmlWithIdsRemoved) \<in> set effects)
            \<or> (\<exists>dir final.
                  addWorkshopPathsToXML (Accepts w) (Join w) (Decode w (Render w xmlWithIdsRemoved))
                    sp sm dir = Inr final
                \<and> SaveConfigFile (StartServerPayload.Name data) (Render w final) \<in> set effects
                \<and> set final \<subseteq> {t. Tok t \<in> set (Decode w (Render w xmlWithIdsRemoved))}
                                \<union> synthesized_elements (Join w) dir sp sm)"
    using alt
  proof
    assume "pl = [] \<and> ml = [] \<and> xmlToSave = Render w xmlWithIdsRemoved"
    with sv eff show ?thesis by auto
  next
    assume "\<exists>dir final. addWorkshopPathsToXML (Accepts w) (Join w) (Decode w (Render w xmlWithIdsRemoved))
                 sp sm dir = Inr final \<and> xmlToSave = Render w final"
    then obtain dir final where
      a: "addWorkshopPathsToXML (Accepts w) (Join w) (Decode w (Render w xmlWithIdsRemoved)) sp sm dir = Inr final"
      and xs: "xmlToSave = Render w final" by blast
    from addWorkshopPaths_loop_tokens[OF a[unfolded addWorkshopPathsToXML_def]]
    have "set final \<subseteq> {t. Tok t \<in> set (Decode w (Render w xmlWithIdsRemoved))}
                                \<union> synthesized_elements (Join w) dir sp sm" by simp
    with a xs sv eff show ?thesis by auto
  qed
  from f fl have ff: "FailedItemIDs r = filter (\<lambda>itemID. itemID \<notin> set sp \<union> set sm) (pl @ ml)"
    by (simp add: calculateFailedIDs_eq)
  from p u x l[unfolded found_def, symmetric] ff part2 show ?thesis by blast
qed


lemma Itoa_9001: "Itoa 9001 = ''9001''"
  by (simp add: Itoa_def digit_def)

lemma ex_port: "findAvailablePort (usedPorts example_manager) (MinPort example_config) (MaxPort example_config) = Inr 9001"
  by (simp add: findAvailablePort_def example_manager_def example_config_def
        findAvailablePort_from.simps[of _ 9000] findAvailablePort_from.simps[of _ 9001] portUsed_def)

lemma ex_update: "updateXmlPort (\<lambda>out t. True) (document example_document) 9001 = Inr example_tokens_with_port"
  by (simp add: updateXmlPort_def document_def example_document_def el_def port_token_def Itoa_9001
        example_tokens_with_port_def)

lemma ex_extract:
  "extractWorkshopIDsAndModifyXML (\<lambda>out t. True) (map Tok example_tokens_with_port)
     = Inr ([''123''], [], example_tokens_ids_removed)"
  by (simp add: extractWorkshopIDsAndModifyXML_def example_tokens_with_port_def
        example_tokens_ids_removed_def extract_loop.simps(3) extract_skip_step digits_123)

lemma ex_download:
  "DownloadWorkshopItems example_world (Exited example_lines False True) [''123''] []
     ''C:/sw/playlists'' ''C:/sw/mods'' ''573090'' ''C:/steamcmd/steamcmd.exe'' = Inr ([], [])"
  by (simp add: DownloadWorkshopItems_def all_items_def example_lines_def scan_line_def
        example_world_def example_steam_def map_has_def map_set_def Let_def)

lemma ex_add:
  "addWorkshopPathsToXML (\<lambda>out t. True) j (map Tok example_tokens_ids_removed) [] [] d
     = Inr example_tokens_ids_removed"
  by (simp add: addWorkshopPathsToXML_def example_tokens_ids_removed_def synthesized_def)

lemma ex_render:
  "Render example_world example_tokens_with_port = ''with port''"
  "Render example_world example_tokens_ids_removed = ''ids removed''"
  "Decode example_world ''request'' = document example_document"
  "Decode example_world ''with port'' = map Tok example_tokens_with_port"
  "Decode example_world ''ids removed'' = map Tok example_tokens_ids_removed"
  by (simp_all add: example_world_def example_tokens_with_port_def example_tokens_ids_removed_def)

lemma ex_fields:
  "Accepts example_world = (\<lambda>out t. True)" "steamcmd example_world = Exited example_lines False True"
  "Abs example_world p = Some (''C:/swsc/'' @ p)" "saveConfigFile example_world n x"
  "startServerProcess example_world n d = Some \<lparr>Pid = 4711\<rparr>"
  by (simp_all add: example_world_def)

lemma ex_workshop:
  "workshop_stage example_world example_config ''r2'' ''b'' [''123''] [] ''ids removed'' =
     ([Send (sendStatusUpdate ''r2'' ''workshop_download_start'' MsgDownloadStart),
       Send (sendStatusUpdate ''r2'' ''workshop_download_complete'' (MsgDownloadComplete 0 1 1))],
      Some ([''123''], ''ids removed''))"
proof -
  have d: "DownloadWorkshopItems example_world (Exited example_lines False True) [''123''] []
     (WorkshopPlaylistsInstallDir example_config) (WorkshopModsInstallDir example_config)
     (GameAppID example_config) (SteamCmdPath example_config) = Inr ([], [])"
    using ex_download by (simp add: example_config_def)
  show ?thesis
    by (simp add: workshop_stage_def d Let_def ex_fields ex_render ex_add calculateFailedIDs_eq)
qed

lemma ex_launch:
  "snd (launch_stage example_world example_config example_manager ''r2'' ''b'' 9001 [''123''] ''ids removed'') =
     [SaveConfigFile ''b'' ''ids removed'',
      Send (sendStartSuccessResponse ''r2'' (MsgStartSucceeded ''b'' 4711 1) 9001 [''123'']),
      GoWaitForProcessExit ''b'' \<lparr>Pid = 4711\<rparr> 9001]"
  by (simp add: launch_stage_def Let_def ex_fields assignPort_def example_config_def
        example_manager_def portUsed_def stopExistingProcess_def)

lemma ex_run:
  "snd (handleStartServerProcess example_world example_config example_manager ''r2''
          (Some \<lparr>StartServerPayload.Name = ''b'', Config = ''request''\<rparr>)) =
     [Send (sendStatusUpdate ''r2'' ''workshop_download_start'' MsgDownloadStart),
      Send (sendStatusUpdate ''r2'' ''workshop_download_complete'' (MsgDownloadComplete 0 1 1)),
      SaveConfigFile ''b'' ''ids removed'',
      Send (sendStartSuccessResponse ''r2'' (MsgStartSucceeded ''b'' 4711 1) 9001 [''123'']),
      GoWaitForProcessExit ''b'' \<lparr>Pid = 4711\<rparr> 9001]"
proof -
  obtain st2 e2 where l: "launch_stage example_world example_config example_manager ''r2'' ''b'' 9001
                            [''123''] ''ids removed'' = (st2, e2)"
    by (cases "launch_stage example_world example_config example_manager ''r2'' ''b'' 9001 [''123''] ''ids removed''")
  with ex_launch have e2: "e2 = [SaveConfigFile ''b'' ''ids removed'',
      Send (sendStartSuccessResponse ''r2'' (MsgStartSucceeded ''b'' 4711 1) 9001 [''123'']),
      GoWaitForProcessExit ''b'' \<lparr>Pid = 4711\<rparr> 9001]" by simp
  show ?thesis
    by (simp add: handleStartServerProcess_def ex_port ex_fields ex_render ex_update ex_extract
          ex_workshop l e2)
qed


theorem start_reports_failed_items_witness:
  "Send (sendStartSuccessResponse ''r2'' (MsgStartSucceeded ''b'' 4711 1) 9001 [''123''])
     \<in> set (snd (handleStartServerProcess example_world example_config example_manager ''r2''
                    (Some \<lparr>StartServerPayload.Name = ''b'', Config = ''request''\<rparr>)))
   \<and> Success \<lparr>Success = True, Message = MsgStartSucceeded ''b'' 4711 1, Config = [],
        AssignedPort = 9001, FailedItemIDs = [''123''], NeedsConfirmation = False, Players = 0\<rparr>
   \<and> (\<exists>playlistIDs modIDs sp sm.
         playlistIDs = [''123''] \<and> modIDs = [] \<and> sp = [] \<and> sm = []
         \<and> [''123''] = filter (\<lambda>itemID. itemID \<notin> set sp \<union> set sm) (playlistIDs @ modIDs))"
proof -
  let ?run = "handleStartServerProcess example_world example_config example_manager ''r2''
                (Some \<lparr>StartServerPayload.Name = ''b'', Config = ''request''\<rparr>)"
  let ?r = "\<lparr>Success = True, Message = MsgStartSucceeded ''b'' 4711 1, Config = [],
        AssignedPort = 9001, FailedItemIDs = [''123''], NeedsConfirmation = False, Players = 0\<rparr>"
  let ?m = "sendStartSuccessResponse ''r2'' (MsgStartSucceeded ''b'' 4711 1) 9001 [''123'']"
  have run: "?run = (fst ?run, snd ?run)" by simp
  have sent: "Send ?m \<in> set (snd ?run)" by (simp add: ex_run)
  have pay: "Payload ?m = Response ?r" by (simp add: sendStartSuccessResponse_def)
  have ok: "Success ?r" by simp
  from start_reports_failed_items[OF run sent pay ok]
  obtain assignedPort xmlWithPort playlistIDs modIDs xmlWithIdsRemoved sp sm where
    p: "findAvailablePort (usedPorts example_manager) (MinPort example_config) (MaxPort example_config)
          = Inr assignedPort"
    and u: "updateXmlPort (Accepts example_world)
              (Decode example_world (StartServerPayload.Config \<lparr>StartServerPayload.Name = ''b'', Config = ''request''\<rparr>))
              assignedPort = Inr xmlWithPort"
    and x: "extractWorkshopIDsAndModifyXML (Accepts example_world)
              (Decode example_world (Render example_world xmlWithPort))
              = Inr (playlistIDs, modIDs, xmlWithIdsRemoved)"
    and d: "(sp, sm) = (case DownloadWorkshopItems example_world (steamcmd example_world) playlistIDs modIDs
                                (WorkshopPlaylistsInstallDir example_config) (WorkshopModsInstallDir example_config)
                                (GameAppID example_config) (SteamCmdPath example_config)
                         of Inl e \<Rightarrow> ([], []) | Inr found \<Rightarrow> found)"
    and f: "FailedItemIDs ?r = filter (\<lambda>itemID. itemID \<notin> set sp \<union> set sm) (playlistIDs @ modIDs)"
    by blast
  from p have ap: "assignedPort = 9001" by (simp add: ex_port)
  from u have xp: "xmlWithPort = example_tokens_with_port"
    by (simp add: ap ex_fields ex_render ex_update)
  from x have ids: "playlistIDs = [''123'']" "modIDs = []"
    by (simp_all add: xp ex_fields ex_render ex_extract)
  have dl: "DownloadWorkshopItems example_world (Exited example_lines False True) [''123''] []
     (WorkshopPlaylistsInstallDir example_config) (WorkshopModsInstallDir example_config)
     (GameAppID example_config) (SteamCmdPath example_config) = Inr ([], [])"
    using ex_download by (simp add: example_config_def)
  from d have s: "sp = []" "sm = []"
    by (simp_all add: ids ex_fields dl)
  from f ids s have "[''123''] = filter (\<lambda>itemID. itemID \<notin> set sp \<union> set sm) (playlistIDs @ modIDs)"
    by simp
  with ids s sent ok show ?thesis by blast
qed


end
